theory Spec2Isabelle
  imports Main
begin

section \<open>The client-side data loader of \<^verbatim>\<open>packages/runtime/src/dataLoader.ts\<close>\<close>

text \<open>
  The module keeps two module-level variables (\<^verbatim>\<open>dataLoaderFetcher\<close> and \<^verbatim>\<open>cache\<close>) and
  installs one global (\<^verbatim>\<open>window.__ICE_DATA_LOADER__\<close>). They are the fields of the record
  \<open>state\<close> below, which every operation takes and returns. Loader functions, the custom
  fetcher and the runtime plugins are code of the host application: they are named by
  strings, and what they do when called is given by the record \<open>env\<close>. A call may throw
  synchronously (\<open>Inl\<close> of the thrown value) or return a value (\<open>Inr\<close>), which may be a
  promise; the answer may depend on everything that happened before (the trace), so that
  two calls of one function need not return the same value. Such functions are taken to
  leave the three variables of this module alone. The loader config and \<^verbatim>\<open>routesData\<close> are
  taken to be plain objects, as object literals and parsed JSON are.
\<close>

subsection \<open>JavaScript values and promises\<close>

text \<open>
  A promise is represented by its fate: it fulfils with a value, rejects with a reason, or
  stays pending forever. A promise never fulfils with another promise. A function is
  represented by its name.
\<close>

datatype 'a outcome = Fulfilled 'a | Rejected 'a | Pending

datatype jsval =
    JUndefined
  | JNull
  | JBool bool
  | JNum int
  | JStr string
  | JArr "jsval list"
  | JObj "(string \<times> jsval) list"
  | JError string
  | JFunction string
  | JPromise "jsval outcome"

text \<open>
  The conversion to boolean that \<^verbatim>\<open>if (x)\<close>, \<^verbatim>\<open>x || y\<close> and \<^verbatim>\<open>filter(Boolean)\<close> apply.
  Numbers are integers here, so that \<^verbatim>\<open>NaN\<close>, the other falsy number, has no counterpart.
\<close>

fun truthy :: "jsval \<Rightarrow> bool" where
  "truthy JUndefined = False"
| "truthy JNull = False"
| "truthy (JBool b) = b"
| "truthy (JNum n) = (n \<noteq> 0)"
| "truthy (JStr s) = (s \<noteq> [])"
| "truthy (JArr vs) = True"
| "truthy (JObj kvs) = True"
| "truthy (JError m) = True"
| "truthy (JFunction f) = True"
| "truthy (JPromise p) = True"

text \<open>\<^verbatim>\<open>await v\<close>: the fate of a promise, or the value itself when it is not a promise.\<close>

fun await :: "jsval \<Rightarrow> jsval outcome" where
  "await (JPromise p) = p"
| "await v = Fulfilled v"

fun rejections :: "jsval outcome list \<Rightarrow> jsval list" where
  "rejections [] = []"
| "rejections (Rejected r # ps) = r # rejections ps"
| "rejections (p # ps) = rejections ps"

fun fulfilments :: "jsval outcome list \<Rightarrow> jsval list" where
  "fulfilments [] = []"
| "fulfilments (Fulfilled v # ps) = v # fulfilments ps"
| "fulfilments (p # ps) = fulfilments ps"

text \<open>
  \<^verbatim>\<open>Promise.all(vs)\<close> rejects as soon as one member rejects, with that member's reason;
  which member is first when several reject is decided by the event loop, here by the
  parameter \<open>first\<close>, an index into the rejecting members. With no rejecting member it
  stays pending when a member does, and otherwise fulfils with the members' values in the
  order of \<open>vs\<close>.
\<close>

definition Promise_all :: "(jsval list \<Rightarrow> nat) \<Rightarrow> jsval list \<Rightarrow> jsval outcome" where
  "Promise_all first vs =
     (let fates = map await vs; rejs = rejections fates
      in if rejs \<noteq> [] then Rejected (rejs ! (first vs mod length rejs))
         else if Pending \<in> set fates then Pending
         else Fulfilled (JArr (fulfilments fates)))"

subsection \<open>The data of the module\<close>

text \<open>\<^verbatim>\<open>DataLoaderConfig\<close>: a loader function, a descriptor object, or an array of either.\<close>

datatype DataLoaderDefinition = Fn string | Descriptor jsval

datatype DataLoaderConfig = Single DataLoaderDefinition | Batch "DataLoaderDefinition list"

type_synonym Loaders = "string \<rightharpoonup> DataLoaderConfig"

subsection \<open>Reading a property of a plain object\<close>

text \<open>
  The loader config and \<^verbatim>\<open>routesData\<close> are plain objects, and the code reads them with
  \<^verbatim>\<open>object[id]\<close>. A map holds the own properties of such an object; for a key that is not
  an own property the read goes on to \<^verbatim>\<open>Object.prototype\<close>, whose members every plain object
  inherits: eleven functions, and the accessor \<^verbatim>\<open>__proto__\<close>, which yields the prototype
  object itself. The function under the key \<open>k\<close> has the name \<open>''Object.prototype.'' @ k\<close>;
  no function of the host has such a name.
\<close>

definition Object_prototype_functions :: "string list" where
  "Object_prototype_functions =
     [''constructor'', ''__defineGetter__'', ''__defineSetter__'', ''hasOwnProperty'',
      ''__lookupGetter__'', ''__lookupSetter__'', ''isPrototypeOf'', ''propertyIsEnumerable'',
      ''toString'', ''valueOf'', ''toLocaleString'']"

definition Object_prototype :: "string \<rightharpoonup> jsval" where
  "Object_prototype k =
     (if k \<in> set Object_prototype_functions then Some (JFunction (''Object.prototype.'' @ k))
      else if k = ''__proto__''
      then Some (JObj (map (\<lambda>n. (n, JFunction (''Object.prototype.'' @ n)))
                         Object_prototype_functions))
      else None)"

text \<open>\<^verbatim>\<open>routesData[id]\<close>: the own property, else the inherited one, else \<^verbatim>\<open>undefined\<close>.\<close>

definition get_property :: "(string \<rightharpoonup> jsval) \<Rightarrow> string \<Rightarrow> jsval" where
  "get_property object k =
     (case object k of
        Some v \<Rightarrow> v
      | None \<Rightarrow> (case Object_prototype k of Some v \<Rightarrow> v | None \<Rightarrow> JUndefined))"

text \<open>
  \<^verbatim>\<open>loaders[id]\<close>, with \<open>None\<close> for \<^verbatim>\<open>undefined\<close>. An inherited function is a function-form
  declaration to the code, and the prototype object, whose \<^verbatim>\<open>typeof\<close> is \<^verbatim>\<open>'object'\<close>, a
  descriptor.
\<close>

fun as_declaration :: "jsval \<Rightarrow> DataLoaderConfig" where
  "as_declaration (JFunction f) = Single (Fn f)"
| "as_declaration v = Single (Descriptor v)"

definition get_loader :: "Loaders \<Rightarrow> string \<Rightarrow> DataLoaderConfig option" where
  "get_loader loaders k =
     (case loaders k of
        Some d \<Rightarrow> Some d
      | None \<Rightarrow> (case Object_prototype k of Some v \<Rightarrow> Some (as_declaration v) | None \<Rightarrow> None))"

text \<open>
  What the inherited functions do when the code calls them as loaders, \<^verbatim>\<open>f(requestContext)\<close>,
  that is with \<^verbatim>\<open>this\<close> undefined: \<^verbatim>\<open>toString\<close> returns the tag of \<^verbatim>\<open>undefined\<close>; the
  constructor, which is \<^verbatim>\<open>Object\<close>, returns its argument when that is an object and a new
  object for \<^verbatim>\<open>undefined\<close> and \<^verbatim>\<open>null\<close> (the wrapper object of a primitive is represented by
  the primitive); \<^verbatim>\<open>isPrototypeOf\<close> returns \<^verbatim>\<open>false\<close> for an argument that is not an object;
  every other call throws a TypeError, since \<^verbatim>\<open>undefined\<close> cannot be converted to an object.
  The result is \<open>None\<close> for a name that is not one of these functions.
\<close>

fun is_object :: "jsval \<Rightarrow> bool" where
  "is_object (JArr vs) = True"
| "is_object (JObj kvs) = True"
| "is_object (JError m) = True"
| "is_object (JFunction f) = True"
| "is_object (JPromise p) = True"
| "is_object v = False"

definition Object_prototype_call :: "string \<Rightarrow> jsval \<Rightarrow> (jsval + jsval) option" where
  "Object_prototype_call f v =
     (if f = ''Object.prototype.toString'' then Some (Inr (JStr ''[object Undefined]''))
      else if f = ''Object.prototype.constructor''
      then Some (Inr (case v of JUndefined \<Rightarrow> JObj [] | JNull \<Rightarrow> JObj [] | _ \<Rightarrow> v))
      else if f = ''Object.prototype.isPrototypeOf'' \<and> \<not> is_object v
      then Some (Inr (JBool False))
      else if f \<in> set (map (\<lambda>n. ''Object.prototype.'' @ n) Object_prototype_functions)
      then Some (Inl (JError ''TypeError: Cannot convert undefined or null to object''))
      else None)"

record CachedResult =
  "value" :: jsval
  status :: string

text \<open>The object that a cache record is, as a JavaScript value.\<close>

definition record_object :: "CachedResult \<Rightarrow> jsval" where
  "record_object r = JObj [(''value'', value r), (''status'', JStr (status r))]"

record LoaderOptions =
  fetcher :: "string option"
  runtimeModules :: "string list option"
  appExport :: jsval

text \<open>\<^verbatim>\<open>window.__ICE_APP_CONTEXT__\<close>; each of its fields may be missing.\<close>

record AppContext =
  matchedIds :: "string list option"
  routesData :: "(string \<rightharpoonup> jsval) option"
  renderMode :: "string option"

text \<open>What the module does that can be seen from outside, in the order it happens.\<close>

datatype event =
    Invoke_loader string jsval
  | Invoke_fetcher string jsval
  | Invoke_plugin string jsval
  | Cache_set string CachedResult
  | Console_error jsval

record state =
  dataLoaderFetcher :: "string option"
  cache :: "string \<rightharpoonup> CachedResult"
  ICE_DATA_LOADER :: "Loaders option"
  trace :: "event list"

record env =
  run_loader :: "string \<Rightarrow> event list \<Rightarrow> jsval \<Rightarrow> jsval + jsval"
  run_fetcher :: "string \<Rightarrow> event list \<Rightarrow> jsval \<Rightarrow> jsval + jsval"
  run_plugin :: "string \<Rightarrow> event list \<Rightarrow> jsval \<Rightarrow> jsval + jsval"
  ICE_APP_CONTEXT :: "AppContext option"
  requestContext :: jsval
  first_rejection :: "jsval list \<Rightarrow> nat"

definition initial_state :: state where
  "initial_state =
     \<lparr>dataLoaderFetcher = None, cache = Map.empty, ICE_DATA_LOADER = None, trace = []\<rparr>"

subsection \<open>The custom fetcher and \<^verbatim>\<open>callDataLoader\<close>\<close>

definition setFetcher :: "string option \<Rightarrow> state \<Rightarrow> state" where
  "setFetcher customFetcher s = s\<lparr>dataLoaderFetcher := customFetcher\<rparr>"

text \<open>Calling \<^verbatim>\<open>dataLoaderFetcher\<close> while it is still undefined throws a TypeError.\<close>

definition loadDataByCustomFetcher :: "env \<Rightarrow> jsval \<Rightarrow> state \<Rightarrow> (jsval + jsval) \<times> state" where
  "loadDataByCustomFetcher e config s =
     (case dataLoaderFetcher s of
        None \<Rightarrow> (Inl (JError ''TypeError: dataLoaderFetcher is not a function''), s)
      | Some g \<Rightarrow>
          (run_fetcher e g (trace s) config,
           s\<lparr>trace := trace s @ [Invoke_fetcher g config]\<rparr>))"

text \<open>
  \<^verbatim>\<open>loader(requestContext)\<close>: what the call gives after the events \<open>h\<close>, for an inherited
  function and for a function of the host.
\<close>

definition apply_function :: "env \<Rightarrow> string \<Rightarrow> event list \<Rightarrow> jsval \<Rightarrow> jsval + jsval" where
  "apply_function e f h ctx =
     (case Object_prototype_call f ctx of Some r \<Rightarrow> r | None \<Rightarrow> run_loader e f h ctx)"

definition call_function :: "env \<Rightarrow> string \<Rightarrow> jsval \<Rightarrow> state \<Rightarrow> (jsval + jsval) \<times> state" where
  "call_function e f ctx s =
     (apply_function e f (trace s) ctx, s\<lparr>trace := trace s @ [Invoke_loader f ctx]\<rparr>)"

text \<open>The callback of \<^verbatim>\<open>dataLoader.map\<close>: one member of a batch.\<close>

fun call_member :: "env \<Rightarrow> DataLoaderDefinition \<Rightarrow> jsval \<Rightarrow> state \<Rightarrow> (jsval + jsval) \<times> state" where
  "call_member e (Descriptor config) ctx s = loadDataByCustomFetcher e config s"
| "call_member e (Fn f) ctx s = call_function e f ctx s"

text \<open>\<^verbatim>\<open>dataLoader.map(...)\<close>: the members in order; a throw ends the loop.\<close>

fun map_members ::
  "env \<Rightarrow> DataLoaderDefinition list \<Rightarrow> jsval \<Rightarrow> state \<Rightarrow> (jsval + jsval list) \<times> state" where
  "map_members e [] ctx s = (Inr [], s)"
| "map_members e (l # ls) ctx s =
     (case call_member e l ctx s of
        (Inl err, s1) \<Rightarrow> (Inl err, s1)
      | (Inr v, s1) \<Rightarrow>
          (case map_members e ls ctx s1 of
             (Inl err, s2) \<Rightarrow> (Inl err, s2)
           | (Inr vs, s2) \<Rightarrow> (Inr (v # vs), s2)))"

fun callDataLoader :: "env \<Rightarrow> DataLoaderConfig \<Rightarrow> jsval \<Rightarrow> state \<Rightarrow> (jsval + jsval) \<times> state" where
  "callDataLoader e (Batch ls) ctx s =
     (case map_members e ls ctx s of
        (Inl err, s1) \<Rightarrow> (Inl err, s1)
      | (Inr loaders, s1) \<Rightarrow> (Inr (JPromise (Promise_all (first_rejection e) loaders)), s1))"
| "callDataLoader e (Single (Descriptor config)) ctx s = loadDataByCustomFetcher e config s"
| "callDataLoader e (Single (Fn f)) ctx s = call_function e f ctx s"

subsection \<open>Seeding the cache: \<^verbatim>\<open>loadInitialDataInClient\<close>\<close>

definition cache_set :: "string \<Rightarrow> CachedResult \<Rightarrow> state \<Rightarrow> state" where
  "cache_set k r s = s\<lparr>cache := (cache s)(k \<mapsto> r), trace := trace s @ [Cache_set k r]\<rparr>"

text \<open>
  The callback of \<^verbatim>\<open>ids.forEach\<close>. The result is the value thrown, if any; \<^verbatim>\<open>return\<close>
  inside the callback only ends the work for this id.
\<close>

definition seed_id ::
  "env \<Rightarrow> Loaders \<Rightarrow> (string \<rightharpoonup> jsval) \<Rightarrow> string option \<Rightarrow> string \<Rightarrow> state \<Rightarrow> jsval option \<times> state" where
  "seed_id e loaders rData rMode rid s =
     (let dataFromSSR = get_property rData rid;
          s1 = (if truthy dataFromSSR
                then cache_set (if rMode = Some ''SSG'' then rid @ ''_ssg'' else rid)
                       \<lparr>value = dataFromSSR, status = ''RESOLVED''\<rparr> s
                else s)
      in if truthy dataFromSSR \<and> rMode = Some ''SSR'' then (None, s1)
         else (case get_loader loaders rid of
                 None \<Rightarrow> (None, s1)
               | Some dataLoader \<Rightarrow>
                   (case callDataLoader e dataLoader (requestContext e) s1 of
                      (Inl err, s2) \<Rightarrow> (Some err, s2)
                    | (Inr loader, s2) \<Rightarrow>
                        (None, cache_set rid \<lparr>value = loader, status = ''LOADING''\<rparr> s2))))"

text \<open>\<^verbatim>\<open>ids.forEach\<close>: a throw in the callback ends the loop and leaves \<^verbatim>\<open>forEach\<close>.\<close>

fun forEach_id ::
  "env \<Rightarrow> Loaders \<Rightarrow> (string \<rightharpoonup> jsval) \<Rightarrow> string option \<Rightarrow> string list \<Rightarrow> state \<Rightarrow> jsval option \<times> state" where
  "forEach_id e loaders rData rMode [] s = (None, s)"
| "forEach_id e loaders rData rMode (rid # ids) s =
     (case seed_id e loaders rData rMode rid s of
        (Some err, s1) \<Rightarrow> (Some err, s1)
      | (None, s1) \<Rightarrow> forEach_id e loaders rData rMode ids s1)"

definition context_matchedIds :: "env \<Rightarrow> string list" where
  "context_matchedIds e =
     (case ICE_APP_CONTEXT e of
        None \<Rightarrow> []
      | Some c \<Rightarrow> (case matchedIds c of None \<Rightarrow> [] | Some ms \<Rightarrow> ms))"

definition context_routesData :: "env \<Rightarrow> (string \<rightharpoonup> jsval)" where
  "context_routesData e =
     (case ICE_APP_CONTEXT e of
        None \<Rightarrow> Map.empty
      | Some c \<Rightarrow> (case routesData c of None \<Rightarrow> Map.empty | Some d \<Rightarrow> d))"

definition context_renderMode :: "env \<Rightarrow> string option" where
  "context_renderMode e = (case ICE_APP_CONTEXT e of None \<Rightarrow> None | Some c \<Rightarrow> renderMode c)"

definition loadInitialDataInClient :: "env \<Rightarrow> Loaders \<Rightarrow> state \<Rightarrow> jsval option \<times> state" where
  "loadInitialDataInClient e loaders s =
     forEach_id e loaders (context_routesData e) (context_renderMode e)
       (''_app'' # context_matchedIds e) s"

subsection \<open>\<^verbatim>\<open>getData\<close> and \<^verbatim>\<open>init\<close>\<close>

text \<open>
  \<^verbatim>\<open>getData\<close> is an async function: the result is the fate of the promise it returns, and
  the state is the one left by the part that runs before the first \<^verbatim>\<open>await\<close>, which is
  all of the function's effects. The flag \<open>ssg\<close> is the truth value of \<^verbatim>\<open>options?.ssg\<close>.
\<close>

text \<open>
  What \<^verbatim>\<open>getData\<close> does with the value of a record that is not RESOLVED:
  \<^verbatim>\<open>Array.isArray(value) ? await Promise.all(value) : await value\<close>.
\<close>

definition await_stored :: "env \<Rightarrow> jsval \<Rightarrow> jsval outcome" where
  "await_stored e v =
     (case v of JArr vs \<Rightarrow> Promise_all (first_rejection e) vs | _ \<Rightarrow> await v)"

definition getData :: "env \<Rightarrow> Loaders \<Rightarrow> string \<Rightarrow> bool \<Rightarrow> state \<Rightarrow> jsval outcome \<times> state" where
  "getData e dataloaderConfig rid ssg s =
     (case cache s (if ssg then rid @ ''_ssg'' else rid) of
        Some result \<Rightarrow>
          if status result = ''RESOLVED'' then (Fulfilled (record_object result), s)
          else (await_stored e (value result), s)
      | None \<Rightarrow>
          (case get_loader dataloaderConfig rid of
             None \<Rightarrow> (Fulfilled JNull, s)
           | Some dataLoader \<Rightarrow>
               (case callDataLoader e dataLoader (requestContext e) s of
                  (Inl err, s1) \<Rightarrow> (Rejected err, s1)
                | (Inr v, s1) \<Rightarrow> (await v, s1))))"

text \<open>The runtime plugins, called in order with the runtime API object.\<close>

fun map_plugins :: "env \<Rightarrow> string list \<Rightarrow> jsval \<Rightarrow> state \<Rightarrow> (jsval + jsval list) \<times> state" where
  "map_plugins e [] api s = (Inr [], s)"
| "map_plugins e (m # ms) api s =
     (case run_plugin e m (trace s) api of
        Inl err \<Rightarrow> (Inl err, s\<lparr>trace := trace s @ [Invoke_plugin m api]\<rparr>)
      | Inr v \<Rightarrow>
          (case map_plugins e ms api (s\<lparr>trace := trace s @ [Invoke_plugin m api]\<rparr>) of
             (Inl err, s2) \<Rightarrow> (Inl err, s2)
           | (Inr vs, s2) \<Rightarrow> (Inr (v # vs), s2)))"

definition run_plugins :: "env \<Rightarrow> LoaderOptions \<Rightarrow> state \<Rightarrow> jsval outcome \<times> state" where
  "run_plugins e options s =
     (case runtimeModules options of
        None \<Rightarrow> (Fulfilled JUndefined, s)
      | Some ms \<Rightarrow>
          (case map_plugins e ms (JObj [(''appContext'', JObj [(''appExport'', appExport options)])]) s of
             (Inl err, s1) \<Rightarrow> (Rejected err, s1)
           | (Inr vs, s1) \<Rightarrow> (Promise_all (first_rejection e) (filter truthy vs), s1)))"

text \<open>\<^verbatim>\<open>if (fetcher) { setFetcher(fetcher); }\<close>\<close>

definition register_fetcher :: "LoaderOptions \<Rightarrow> state \<Rightarrow> state" where
  "register_fetcher options s =
     (case fetcher options of None \<Rightarrow> s | Some f \<Rightarrow> setFetcher (Some f) s)"

definition console_error :: "jsval \<Rightarrow> state \<Rightarrow> state" where
  "console_error err s = s\<lparr>trace := trace s @ [Console_error err]\<rparr>"

text \<open>
  \<^verbatim>\<open>init\<close> is async as well. When a plugin throws or rejects, the promise of \<^verbatim>\<open>init\<close> rejects
  and nothing after the plugins runs; when a plugin's promise stays pending, so does
  \<^verbatim>\<open>init\<close>.
\<close>

definition init :: "env \<Rightarrow> Loaders \<Rightarrow> LoaderOptions \<Rightarrow> state \<Rightarrow> jsval outcome \<times> state" where
  "init e dataloaderConfig options s =
     (case run_plugins e options s of
        (Rejected err, s1) \<Rightarrow> (Rejected err, s1)
      | (Pending, s1) \<Rightarrow> (Pending, s1)
      | (Fulfilled u, s1) \<Rightarrow>
          (let s2 = register_fetcher options s1
           in case loadInitialDataInClient e dataloaderConfig s2 of
                (Some err, s3) \<Rightarrow>
                  (Fulfilled JUndefined,
                   (console_error err s3)\<lparr>ICE_DATA_LOADER := Some dataloaderConfig\<rparr>)
              | (None, s3) \<Rightarrow>
                  (Fulfilled JUndefined, s3\<lparr>ICE_DATA_LOADER := Some dataloaderConfig\<rparr>)))"

subsection \<open>Notions for the properties, and example hosts\<close>

text \<open>An event that is a call of a loader function or of the custom fetcher.\<close>

fun is_invocation :: "event \<Rightarrow> bool" where
  "is_invocation (Invoke_loader f ctx) = True"
| "is_invocation (Invoke_fetcher g config) = True"
| "is_invocation ev = False"

text \<open>An event that is a call of the loader function \<open>f\<close>, and a declaration that names \<open>f\<close>.\<close>

fun is_call_of :: "string \<Rightarrow> event \<Rightarrow> bool" where
  "is_call_of f (Invoke_loader g ctx) = (g = f)"
| "is_call_of f ev = False"

fun member_names :: "string \<Rightarrow> DataLoaderDefinition \<Rightarrow> bool" where
  "member_names f (Fn g) = (g = f)"
| "member_names f (Descriptor config) = False"

fun names_function :: "string \<Rightarrow> DataLoaderConfig \<Rightarrow> bool" where
  "names_function f (Single l) = member_names f l"
| "names_function f (Batch ls) = list_ex (member_names f) ls"

definition declares :: "Loaders \<Rightarrow> string \<Rightarrow> string \<Rightarrow> bool" where
  "declares loaders f rid =
     (case get_loader loaders rid of None \<Rightarrow> False | Some d \<Rightarrow> names_function f d)"

text \<open>
  The calls that resolving a declaration makes when it does not throw, with the fetcher
  \<open>g\<close> registered: one call of a function, one call of the fetcher for a descriptor, and for
  a batch the calls of its members in order.
\<close>

fun member_events :: "string option \<Rightarrow> jsval \<Rightarrow> DataLoaderDefinition \<Rightarrow> event list" where
  "member_events g ctx (Fn f) = [Invoke_loader f ctx]"
| "member_events (Some g) ctx (Descriptor config) = [Invoke_fetcher g config]"
| "member_events None ctx (Descriptor config) = []"

fun declaration_events :: "string option \<Rightarrow> jsval \<Rightarrow> DataLoaderConfig \<Rightarrow> event list" where
  "declaration_events g ctx (Single l) = member_events g ctx l"
| "declaration_events g ctx (Batch ls) = concat (map (member_events g ctx) ls)"

text \<open>
  The state after the first part of the \<^verbatim>\<open>forEach\<close> callback, which writes the RESOLVED
  record when the id has hydration data.
\<close>

definition write_hydration :: "(string \<rightharpoonup> jsval) \<Rightarrow> string option \<Rightarrow> string \<Rightarrow> state \<Rightarrow> state" where
  "write_hydration rData rMode rid s =
     (if truthy (get_property rData rid)
      then cache_set (if rMode = Some ''SSG'' then rid @ ''_ssg'' else rid)
             \<lparr>value = get_property rData rid, status = ''RESOLVED''\<rparr> s
      else s)"

text \<open>The cache has no LOADING record under the id.\<close>

definition not_LOADING :: "state \<Rightarrow> string \<Rightarrow> bool" where
  "not_LOADING s rid = (case cache s rid of None \<Rightarrow> True | Some r \<Rightarrow> status r \<noteq> ''LOADING'')"

text \<open>
  A caller that calls \<^verbatim>\<open>getData\<close> with the same arguments \<open>n\<close> times. Calls that overlap
  in time are covered as well: all effects of a call happen before its first \<^verbatim>\<open>await\<close>,
  and JavaScript runs that part of each call without interruption.
\<close>

fun repeat_getData ::
  "env \<Rightarrow> Loaders \<Rightarrow> string \<Rightarrow> bool \<Rightarrow> nat \<Rightarrow> state \<Rightarrow> jsval outcome list \<times> state" where
  "repeat_getData e dataloaderConfig rid ssg 0 s = ([], s)"
| "repeat_getData e dataloaderConfig rid ssg (Suc n) s =
     (case getData e dataloaderConfig rid ssg s of
        (r, s1) \<Rightarrow>
          (case repeat_getData e dataloaderConfig rid ssg n s1 of
             (rs, s2) \<Rightarrow> (r # rs, s2)))"

text \<open>
  A host for examples: every loader function returns a promise that fulfils with the
  function's name, the fetcher one that fulfils with the descriptor, plugins return
  nothing. The page context is a parameter.
\<close>

definition example_host :: "AppContext option \<Rightarrow> env" where
  "example_host c =
     \<lparr>run_loader = (\<lambda>f h ctx. Inr (JPromise (Fulfilled (JStr f)))),
      run_fetcher = (\<lambda>g h config. Inr (JPromise (Fulfilled config))),
      run_plugin = (\<lambda>m h api. Inr JUndefined),
      ICE_APP_CONTEXT = c,
      requestContext = JObj [(''pathname'', JStr ''/'')],
      first_rejection = (\<lambda>vs. 0)\<rparr>"

definition no_options :: LoaderOptions where
  "no_options = \<lparr>fetcher = None, runtimeModules = None, appExport = JUndefined\<rparr>"

text \<open>A cache as seeding can leave it, and a loader config, for examples.\<close>

definition example_cached :: state where
  "example_cached = initial_state
     \<lparr>cache := [''home_ssg'' \<mapsto> \<lparr>value = JStr ''snapshot'', status = ''RESOLVED''\<rparr>,
                ''list'' \<mapsto> \<lparr>value = JArr [JPromise (Fulfilled (JNum 1)), JNum 2], status = ''LOADING''\<rparr>,
                ''one'' \<mapsto> \<lparr>value = JPromise (Fulfilled (JNum 7)), status = ''LOADING''\<rparr>]\<rparr>"

definition example_loaders :: Loaders where
  "example_loaders =
     [''home'' \<mapsto> Single (Fn ''fetchHomeData''),
      ''about'' \<mapsto> Single (Descriptor (JObj [(''api'', JStr ''/about'')]))]"

definition with_fetcher :: LoaderOptions where
  "with_fetcher = \<lparr>fetcher = Some ''request'', runtimeModules = None, appExport = JUndefined\<rparr>"

text \<open>The scenario of the specification's last testable property.\<close>

definition scenario_context :: AppContext where
  "scenario_context =
     \<lparr>matchedIds = Some [''home''],
      routesData = Some [''_app'' \<mapsto> JObj [(''user'', JStr ''x'')]],
      renderMode = Some ''SSR''\<rparr>"

definition scenario_loaders :: Loaders where
  "scenario_loaders = [''home'' \<mapsto> Single (Fn ''fetchHomeData'')]"

text \<open>Two more pages: a statically generated one and one rendered in the browser.\<close>

definition ssg_context :: AppContext where
  "ssg_context =
     \<lparr>matchedIds = Some [''about'', ''home''],
      routesData = Some [''home'' \<mapsto> JObj [(''title'', JStr ''Home'')]],
      renderMode = Some ''SSG''\<rparr>"

definition csr_context :: AppContext where
  "csr_context =
     \<lparr>matchedIds = Some [''about''],
      routesData = Some [''about'' \<mapsto> JObj [(''title'', JStr ''About'')]],
      renderMode = Some ''CSR''\<rparr>"

text \<open>A page whose context lists one id twice.\<close>

definition twice_context :: AppContext where
  "twice_context =
     \<lparr>matchedIds = Some [''home'', ''home''], routesData = None, renderMode = Some ''CSR''\<rparr>"

section \<open>Properties\<close>

subsection \<open>What calling a loader declaration leaves alone\<close>

lemma Promise_all_fulfilled:
  "map await vs = map Fulfilled ws \<Longrightarrow> Promise_all first vs = Fulfilled (JArr ws)"
proof -
  have r: "rejections (map Fulfilled ws) = []" by (induction ws) auto
  have f: "fulfilments (map Fulfilled ws) = ws" by (induction ws) auto
  assume "map await vs = map Fulfilled ws"
  then show ?thesis by (auto simp: Promise_all_def r f)
qed

lemma loadDataByCustomFetcher_frame:
  "cache (snd (loadDataByCustomFetcher e config s)) = cache s \<and>
   dataLoaderFetcher (snd (loadDataByCustomFetcher e config s)) = dataLoaderFetcher s \<and>
   ICE_DATA_LOADER (snd (loadDataByCustomFetcher e config s)) = ICE_DATA_LOADER s"
  by (simp add: loadDataByCustomFetcher_def split: option.splits)

lemma call_member_frame:
  "cache (snd (call_member e l ctx s)) = cache s \<and>
   dataLoaderFetcher (snd (call_member e l ctx s)) = dataLoaderFetcher s \<and>
   ICE_DATA_LOADER (snd (call_member e l ctx s)) = ICE_DATA_LOADER s"
  by (cases l) (simp_all add: loadDataByCustomFetcher_frame call_function_def)

lemma map_members_frame:
  "cache (snd (map_members e ls ctx s)) = cache s \<and>
   dataLoaderFetcher (snd (map_members e ls ctx s)) = dataLoaderFetcher s \<and>
   ICE_DATA_LOADER (snd (map_members e ls ctx s)) = ICE_DATA_LOADER s"
proof (induction ls arbitrary: s)
  case Nil
  show ?case by simp
next
  case (Cons l ls)
  obtain r s1 where m: "call_member e l ctx s = (r, s1)" by (cases "call_member e l ctx s")
  have f1: "cache s1 = cache s \<and> dataLoaderFetcher s1 = dataLoaderFetcher s \<and>
            ICE_DATA_LOADER s1 = ICE_DATA_LOADER s"
    using call_member_frame [of e l ctx s] m by simp
  show ?case
  proof (cases r)
    case (Inl err)
    then show ?thesis using m f1 by simp
  next
    case (Inr v)
    obtain r2 s2 where m2: "map_members e ls ctx s1 = (r2, s2)"
      by (cases "map_members e ls ctx s1")
    have f2: "cache s2 = cache s1 \<and> dataLoaderFetcher s2 = dataLoaderFetcher s1 \<and>
              ICE_DATA_LOADER s2 = ICE_DATA_LOADER s1"
      using Cons.IH [of s1] m2 by simp
    show ?thesis using Inr m m2 f1 f2 by (cases r2) simp_all
  qed
qed

lemma callDataLoader_frame:
  "cache (snd (callDataLoader e dataLoader ctx s)) = cache s \<and>
   dataLoaderFetcher (snd (callDataLoader e dataLoader ctx s)) = dataLoaderFetcher s \<and>
   ICE_DATA_LOADER (snd (callDataLoader e dataLoader ctx s)) = ICE_DATA_LOADER s"
proof (cases dataLoader)
  case (Single l)
  then show ?thesis
    by (cases l) (simp_all add: loadDataByCustomFetcher_frame call_function_def)
next
  case (Batch ls)
  obtain r s1 where m: "map_members e ls ctx s = (r, s1)" by (cases "map_members e ls ctx s")
  then show ?thesis using Batch map_members_frame [of e ls ctx s] by (cases r) simp_all
qed


lemma call_member_trace:
  "\<exists>evs. trace (snd (call_member e l ctx s)) = trace s @ evs \<and> list_all is_invocation evs"
  by (cases l) (auto simp: loadDataByCustomFetcher_def call_function_def split: option.splits)

lemma map_members_trace:
  "\<exists>evs. trace (snd (map_members e ls ctx s)) = trace s @ evs \<and> list_all is_invocation evs"
proof (induction ls arbitrary: s)
  case Nil
  show ?case by simp
next
  case (Cons l ls)
  obtain r s1 where m: "call_member e l ctx s = (r, s1)" by (cases "call_member e l ctx s")
  obtain evs1 where e1: "trace s1 = trace s @ evs1" "list_all is_invocation evs1"
    using call_member_trace [of e l ctx s] m by auto
  show ?case
  proof (cases r)
    case (Inl err)
    then show ?thesis using m e1 by simp
  next
    case (Inr v)
    obtain r2 s2 where m2: "map_members e ls ctx s1 = (r2, s2)"
      by (cases "map_members e ls ctx s1")
    obtain evs2 where e2: "trace s2 = trace s1 @ evs2" "list_all is_invocation evs2"
      using Cons.IH [of s1] m2 by auto
    have "trace s2 = trace s @ (evs1 @ evs2) \<and> list_all is_invocation (evs1 @ evs2)"
      using e1 e2 by simp
    then show ?thesis using Inr m m2 by (cases r2) auto
  qed
qed

lemma callDataLoader_trace:
  "\<exists>evs. trace (snd (callDataLoader e dataLoader ctx s)) = trace s @ evs \<and>
         list_all is_invocation evs"
proof (cases dataLoader)
  case (Single l)
  then show ?thesis
    by (cases l) (auto simp: loadDataByCustomFetcher_def call_function_def split: option.splits)
next
  case (Batch ls)
  obtain r s1 where m: "map_members e ls ctx s = (r, s1)" by (cases "map_members e ls ctx s")
  then show ?thesis using Batch map_members_trace [of e ls ctx s] by (cases r) auto
qed

lemma map_plugins_frame:
  "cache (snd (map_plugins e ms api s)) = cache s \<and>
   dataLoaderFetcher (snd (map_plugins e ms api s)) = dataLoaderFetcher s \<and>
   ICE_DATA_LOADER (snd (map_plugins e ms api s)) = ICE_DATA_LOADER s \<and>
   filter is_invocation (trace (snd (map_plugins e ms api s))) = filter is_invocation (trace s)"
proof (induction ms arbitrary: s)
  case Nil
  show ?case by simp
next
  case (Cons m ms)
  let ?s1 = "s\<lparr>trace := trace s @ [Invoke_plugin m api]\<rparr>"
  show ?case
  proof (cases "run_plugin e m (trace s) api")
    case (Inl err)
    then show ?thesis by simp
  next
    case (Inr v)
    obtain r s2 where m2: "map_plugins e ms api ?s1 = (r, s2)"
      by (cases "map_plugins e ms api ?s1")
    then show ?thesis using Inr Cons.IH [of ?s1] by (cases r) simp_all
  qed
qed

lemma run_plugins_frame:
  "cache (snd (run_plugins e options s)) = cache s \<and>
   dataLoaderFetcher (snd (run_plugins e options s)) = dataLoaderFetcher s \<and>
   ICE_DATA_LOADER (snd (run_plugins e options s)) = ICE_DATA_LOADER s \<and>
   filter is_invocation (trace (snd (run_plugins e options s))) = filter is_invocation (trace s)"
proof (cases "runtimeModules options")
  case None
  then show ?thesis by (simp add: run_plugins_def)
next
  case (Some ms)
  let ?api = "JObj [(''appContext'', JObj [(''appExport'', appExport options)])]"
  obtain r s1 where m: "map_plugins e ms ?api s = (r, s1)"
    by (cases "map_plugins e ms ?api s")
  then show ?thesis
    using Some map_plugins_frame [of e ms ?api s] by (cases r) (simp_all add: run_plugins_def)
qed

subsection \<open>The loop over the ids and \<^verbatim>\<open>init\<close> after the plugins\<close>

lemma forEach_id_append:
  "forEach_id e loaders rData rMode (xs @ ys) s =
     (case forEach_id e loaders rData rMode xs s of
        (Some err, s1) \<Rightarrow> (Some err, s1)
      | (None, s1) \<Rightarrow> forEach_id e loaders rData rMode ys s1)"
proof (induction xs arbitrary: s)
  case Nil
  show ?case by simp
next
  case (Cons x xs)
  obtain r s1 where st: "seed_id e loaders rData rMode x s = (r, s1)"
    by (cases "seed_id e loaders rData rMode x s")
  show ?case
  proof (cases r)
    case None
    then show ?thesis using st Cons.IH [of s1] by simp
  next
    case (Some err)
    then show ?thesis using st by simp
  qed
qed

lemma forEach_id_throw_at:
  assumes "forEach_id e loaders rData rMode before s = (None, s2)"
    and "seed_id e loaders rData rMode rid s2 = (Some err, s3)"
  shows "forEach_id e loaders rData rMode (before @ rid # rest) s = (Some err, s3)"
  using assms by (simp add: forEach_id_append)

lemma init_after_plugins:
  assumes "run_plugins e options s = (Fulfilled u, s1)"
  shows "init e dataloaderConfig options s =
     (case loadInitialDataInClient e dataloaderConfig (register_fetcher options s1) of
        (Some err, s3) \<Rightarrow>
          (Fulfilled JUndefined, (console_error err s3)\<lparr>ICE_DATA_LOADER := Some dataloaderConfig\<rparr>)
      | (None, s3) \<Rightarrow> (Fulfilled JUndefined, s3\<lparr>ICE_DATA_LOADER := Some dataloaderConfig\<rparr>))"
  using assms by (simp add: init_def)

lemma seed_id_late:
  assumes "\<not> (truthy (get_property rData rid) \<and> rMode = Some ''SSR'')"
  shows "seed_id e loaders rData rMode rid s =
           (case get_loader loaders rid of
              None \<Rightarrow>
                (None,
                 if truthy (get_property rData rid)
                 then cache_set (if rMode = Some ''SSG'' then rid @ ''_ssg'' else rid)
                        \<lparr>value = (get_property rData rid),
                         status = ''RESOLVED''\<rparr> s
                 else s)
            | Some dataLoader \<Rightarrow>
                (case callDataLoader e dataLoader (requestContext e)
                        (if truthy (get_property rData rid)
                         then cache_set (if rMode = Some ''SSG'' then rid @ ''_ssg'' else rid)
                                \<lparr>value = (get_property rData rid),
                                 status = ''RESOLVED''\<rparr> s
                         else s) of
                   (Inl err, s2) \<Rightarrow> (Some err, s2)
                 | (Inr loader, s2) \<Rightarrow>
                     (None, cache_set rid \<lparr>value = loader, status = ''LOADING''\<rparr> s2)))"
  unfolding seed_id_def Let_def using assms by (simp only: if_False)

lemma seed_id_throws_in_callDataLoader:
  "seed_id e loaders rData rMode rid s = (Some err, s3) \<Longrightarrow>
   \<exists>dataLoader s1. get_loader loaders rid = Some dataLoader \<and>
      callDataLoader e dataLoader (requestContext e) s1 = (Inl err, s3)"
  by (auto simp: seed_id_def Let_def split: if_splits option.splits prod.splits sum.splits)

text \<open>The definitions that an example unfolds.\<close>

lemmas example_defs =
  example_host_def example_loaders_def no_options_def with_fetcher_def initial_state_def
  scenario_context_def scenario_loaders_def ssg_context_def csr_context_def twice_context_def
  context_matchedIds_def context_routesData_def context_renderMode_def

lemmas read_defs =
  get_loader_def get_property_def Object_prototype_def Object_prototype_functions_def

lemmas step_defs =
  seed_id_def cache_set_def call_function_def apply_function_def Object_prototype_call_def
  loadDataByCustomFetcher_def register_fetcher_def setFetcher_def Let_def read_defs

subsection \<open>Retrieval\<close>

text \<open>
  C1. When there is a cache record at the key that \<^verbatim>\<open>getData\<close> looks up (\<open>rid @ ''_ssg''\<close>
  with the ssg option, else \<open>rid\<close>): a record with status RESOLVED is what \<^verbatim>\<open>getData\<close>
  fulfils with, as the object with its two fields; with status LOADING and an array as
  value, \<^verbatim>\<open>getData\<close> has the fate of \<^verbatim>\<open>Promise.all\<close> of the array, which is the array of the
  members' results in order when they all fulfil; with status LOADING and any other value
  it has the fate of that value. The state is left as it was.
\<close>

theorem getData_cached:
  assumes "cache s (if ssg then rid @ ''_ssg'' else rid) = Some r"
  shows "(status r = ''RESOLVED'' \<longrightarrow>
            getData e dataloaderConfig rid ssg s = (Fulfilled (record_object r), s)) \<and>
         (status r = ''LOADING'' \<and> value r = JArr vs \<longrightarrow>
            getData e dataloaderConfig rid ssg s = (Promise_all (first_rejection e) vs, s)) \<and>
         (status r = ''LOADING'' \<and> value r = JArr vs \<and> map await vs = map Fulfilled ws \<longrightarrow>
            getData e dataloaderConfig rid ssg s = (Fulfilled (JArr ws), s)) \<and>
         (status r = ''LOADING'' \<and> value r = JPromise p \<longrightarrow>
            getData e dataloaderConfig rid ssg s = (p, s)) \<and>
         (status r = ''LOADING'' \<and> (case value r of JArr us \<Rightarrow> False | v \<Rightarrow> True) \<longrightarrow>
            getData e dataloaderConfig rid ssg s = (await (value r), s))"
  using assms by (auto simp: getData_def await_stored_def Promise_all_fulfilled split: jsval.splits)

theorem getData_cached_witness:
  "getData (example_host None) example_loaders ''home'' True example_cached =
     (Fulfilled (JObj [(''value'', JStr ''snapshot''), (''status'', JStr ''RESOLVED'')]), example_cached) \<and>
   getData (example_host None) example_loaders ''list'' False example_cached =
     (Fulfilled (JArr [JNum 1, JNum 2]), example_cached) \<and>
   getData (example_host None) example_loaders ''one'' False example_cached =
     (Fulfilled (JNum 7), example_cached)"
proof -
  have h1: "cache example_cached (if True then ''home'' @ ''_ssg'' else ''home'') =
              Some \<lparr>value = JStr ''snapshot'', status = ''RESOLVED''\<rparr>"
    by (simp add: example_cached_def)
  have h2: "cache example_cached (if False then ''list'' @ ''_ssg'' else ''list'') =
              Some \<lparr>value = JArr [JPromise (Fulfilled (JNum 1)), JNum 2], status = ''LOADING''\<rparr>"
    by (simp add: example_cached_def)
  have h3: "cache example_cached (if False then ''one'' @ ''_ssg'' else ''one'') =
              Some \<lparr>value = JPromise (Fulfilled (JNum 7)), status = ''LOADING''\<rparr>"
    by (simp add: example_cached_def)
  note t1 = getData_cached [where s = example_cached and ssg = True and rid = "''home''"
        and r = "\<lparr>value = JStr ''snapshot'', status = ''RESOLVED''\<rparr>"
        and e = "example_host None" and dataloaderConfig = example_loaders, OF h1]
  note t2 = getData_cached [where s = example_cached and ssg = False and rid = "''list''"
        and r = "\<lparr>value = JArr [JPromise (Fulfilled (JNum 1)), JNum 2], status = ''LOADING''\<rparr>"
        and e = "example_host None" and dataloaderConfig = example_loaders
        and vs = "[JPromise (Fulfilled (JNum 1)), JNum 2]" and ws = "[JNum 1, JNum 2]", OF h2]
  note t3 = getData_cached [where s = example_cached and ssg = False and rid = "''one''"
        and r = "\<lparr>value = JPromise (Fulfilled (JNum 7)), status = ''LOADING''\<rparr>"
        and e = "example_host None" and dataloaderConfig = example_loaders
        and p = "Fulfilled (JNum 7)", OF h3]
  have c1: "getData (example_host None) example_loaders ''home'' True example_cached =
     (Fulfilled (JObj [(''value'', JStr ''snapshot''), (''status'', JStr ''RESOLVED'')]), example_cached)"
    using t1 by (simp add: record_object_def)
  have c2: "getData (example_host None) example_loaders ''list'' False example_cached =
     (Fulfilled (JArr [JNum 1, JNum 2]), example_cached)"
    using t2 by (simp add: Promise_all_def)
  have c3: "getData (example_host None) example_loaders ''one'' False example_cached =
     (Fulfilled (JNum 7), example_cached)"
    using t3 by simp
  from c1 c2 c3 show ?thesis by simp
qed



lemma get_loader_None_iff:
  "get_loader loaders k = None \<longleftrightarrow>
     loaders k = None \<and> k \<notin> set Object_prototype_functions \<and> k \<noteq> ''__proto__''"
  by (simp add: get_loader_def Object_prototype_def split: option.splits)




text \<open>
  C7, as the code has it. While no fetcher is registered, resolving a descriptor throws the
  TypeError of calling \<^verbatim>\<open>undefined\<close>, synchronously. When \<^verbatim>\<open>getData\<close> resolves the descriptor,
  which it does when the cache has no record at the looked-up key, the throw becomes the
  rejection of the promise that the caller of \<^verbatim>\<open>getData\<close> awaits. When seeding resolves it,
  the seeding of the id ends with the TypeError after the write of the hydration record, if
  any, with no LOADING record, and \<^verbatim>\<open>init\<close> catches and logs the TypeError and fulfils: no
  rejected promise is stored or returned.
\<close>

theorem descriptor_without_fetcher_throws:
  assumes "dataLoaderFetcher s = None"
  shows "callDataLoader e (Single (Descriptor config)) ctx s =
           (Inl (JError ''TypeError: dataLoaderFetcher is not a function''), s) \<and>
         (cache s (if ssg then rid @ ''_ssg'' else rid) = None \<and>
          get_loader dataloaderConfig rid = Some (Single (Descriptor config)) \<longrightarrow>
            getData e dataloaderConfig rid ssg s =
              (Rejected (JError ''TypeError: dataLoaderFetcher is not a function''), s)) \<and>
         (get_loader dataloaderConfig rid = Some (Single (Descriptor config)) \<and>
          \<not> (truthy (get_property rData rid) \<and> rMode = Some ''SSR'') \<longrightarrow>
            seed_id e dataloaderConfig rData rMode rid s =
              (Some (JError ''TypeError: dataLoaderFetcher is not a function''),
               write_hydration rData rMode rid s)) \<and>
         (get_loader dataloaderConfig rid = Some (Single (Descriptor config)) \<and>
          \<not> (truthy (get_property (context_routesData e) rid) \<and>
             context_renderMode e = Some ''SSR'') \<and>
          run_plugins e options s0 = (Fulfilled u, s1) \<and>
          ''_app'' # context_matchedIds e = before @ rid # rest \<and>
          forEach_id e dataloaderConfig (context_routesData e) (context_renderMode e) before
            (register_fetcher options s1) = (None, s) \<longrightarrow>
            init e dataloaderConfig options s0 =
              (Fulfilled JUndefined,
               (write_hydration (context_routesData e) (context_renderMode e) rid s)
                 \<lparr>trace := trace (write_hydration (context_routesData e) (context_renderMode e) rid s) @
                            [Console_error (JError ''TypeError: dataLoaderFetcher is not a function'')],
                  ICE_DATA_LOADER := Some dataloaderConfig\<rparr>))"
proof -
  let ?TE = "JError ''TypeError: dataLoaderFetcher is not a function''"
  have thrown: "callDataLoader e (Single (Descriptor config)) ctx s = (Inl ?TE, s)"
    using assms by (simp add: loadDataByCustomFetcher_def)
  have rejected: "cache s (if ssg then rid @ ''_ssg'' else rid) = None \<and>
          get_loader dataloaderConfig rid = Some (Single (Descriptor config)) \<longrightarrow>
            getData e dataloaderConfig rid ssg s = (Rejected ?TE, s)"
    using assms by (simp add: getData_def loadDataByCustomFetcher_def)
  have step: "seed_id e dataloaderConfig rD rM rid s = (Some ?TE, write_hydration rD rM rid s)"
    if "get_loader dataloaderConfig rid = Some (Single (Descriptor config))"
      and "\<not> (truthy (get_property rD rid) \<and> rM = Some ''SSR'')" for rD rM
  proof -
    have "dataLoaderFetcher (write_hydration rD rM rid s) = None"
      using assms by (simp add: write_hydration_def cache_set_def)
    then have "callDataLoader e (Single (Descriptor config)) (requestContext e)
                 (write_hydration rD rM rid s) = (Inl ?TE, write_hydration rD rM rid s)"
      by (simp add: loadDataByCustomFetcher_def)
    then show ?thesis
      using that(1)
      by (simp add: seed_id_late [where rData = rD and rid = rid and rMode = rM, OF that(2)]
          write_hydration_def)
  qed
  have seeded: "get_loader dataloaderConfig rid = Some (Single (Descriptor config)) \<and>
          \<not> (truthy (get_property rData rid) \<and> rMode = Some ''SSR'') \<longrightarrow>
            seed_id e dataloaderConfig rData rMode rid s =
              (Some ?TE, write_hydration rData rMode rid s)"
    using step by blast
  have logged: "get_loader dataloaderConfig rid = Some (Single (Descriptor config)) \<and>
          \<not> (truthy (get_property (context_routesData e) rid) \<and>
             context_renderMode e = Some ''SSR'') \<and>
          run_plugins e options s0 = (Fulfilled u, s1) \<and>
          ''_app'' # context_matchedIds e = before @ rid # rest \<and>
          forEach_id e dataloaderConfig (context_routesData e) (context_renderMode e) before
            (register_fetcher options s1) = (None, s) \<longrightarrow>
            init e dataloaderConfig options s0 =
              (Fulfilled JUndefined,
               (write_hydration (context_routesData e) (context_renderMode e) rid s)
                 \<lparr>trace := trace (write_hydration (context_routesData e) (context_renderMode e) rid s) @
                            [Console_error ?TE],
                  ICE_DATA_LOADER := Some dataloaderConfig\<rparr>)"
  proof
    assume a: "get_loader dataloaderConfig rid = Some (Single (Descriptor config)) \<and>
          \<not> (truthy (get_property (context_routesData e) rid) \<and>
             context_renderMode e = Some ''SSR'') \<and>
          run_plugins e options s0 = (Fulfilled u, s1) \<and>
          ''_app'' # context_matchedIds e = before @ rid # rest \<and>
          forEach_id e dataloaderConfig (context_routesData e) (context_renderMode e) before
            (register_fetcher options s1) = (None, s)"
    let ?h = "write_hydration (context_routesData e) (context_renderMode e) rid s"
    have st: "seed_id e dataloaderConfig (context_routesData e) (context_renderMode e) rid s =
                (Some ?TE, ?h)"
      using step a by blast
    have pre: "forEach_id e dataloaderConfig (context_routesData e) (context_renderMode e) before
                 (register_fetcher options s1) = (None, s)"
      using a by blast
    have ids: "''_app'' # context_matchedIds e = before @ rid # rest" using a by blast
    have "loadInitialDataInClient e dataloaderConfig (register_fetcher options s1) = (Some ?TE, ?h)"
      unfolding loadInitialDataInClient_def ids using pre st by (rule forEach_id_throw_at)
    moreover have "run_plugins e options s0 = (Fulfilled u, s1)" using a by blast
    ultimately show "init e dataloaderConfig options s0 =
              (Fulfilled JUndefined,
               ?h\<lparr>trace := trace ?h @ [Console_error ?TE],
                  ICE_DATA_LOADER := Some dataloaderConfig\<rparr>)"
      by (simp add: init_after_plugins console_error_def)
  qed
  from thrown rejected seeded logged show ?thesis by blast
qed

theorem descriptor_without_fetcher_throws_witness:
  "getData (example_host None) example_loaders ''about'' False initial_state =
     (Rejected (JError ''TypeError: dataLoaderFetcher is not a function''), initial_state) \<and>
   init (example_host (Some ssg_context)) example_loaders no_options initial_state =
     (Fulfilled JUndefined,
      \<lparr>dataLoaderFetcher = None, cache = Map.empty, ICE_DATA_LOADER = Some example_loaders,
       trace = [Console_error (JError ''TypeError: dataLoaderFetcher is not a function'')]\<rparr>)"
proof -
  let ?H = "example_host (Some ssg_context)"
  let ?TE = "JError ''TypeError: dataLoaderFetcher is not a function''"
  let ?c = "JObj [(''api'', JStr ''/about'')]"
  have f: "dataLoaderFetcher initial_state = None"
    by (simp add: initial_state_def)
  have c: "cache initial_state (if False then ''about'' @ ''_ssg'' else ''about'') = None"
    by (simp add: initial_state_def)
  have l: "get_loader example_loaders ''about'' = Some (Single (Descriptor ?c))"
    by (simp add: example_loaders_def read_defs)
  have ne: "\<not> (truthy (get_property (context_routesData ?H) ''about'') \<and>
              context_renderMode ?H = Some ''SSR'')"
    by (simp add: example_defs read_defs)
  have p: "run_plugins ?H no_options initial_state = (Fulfilled JUndefined, initial_state)"
    by (simp add: run_plugins_def no_options_def)
  have ids: "''_app'' # context_matchedIds ?H = [''_app''] @ ''about'' # [''home'']"
    by (simp add: example_defs)
  have pre: "forEach_id ?H example_loaders (context_routesData ?H) (context_renderMode ?H)
               [''_app''] (register_fetcher no_options initial_state) = (None, initial_state)"
    by (simp add: example_defs step_defs)
  note miss = descriptor_without_fetcher_throws [where s = initial_state and ssg = False
      and rid = "''about''" and dataloaderConfig = example_loaders and config = ?c
      and e = "example_host None", OF f]
  note boot = descriptor_without_fetcher_throws [where s = initial_state and rid = "''about''"
      and dataloaderConfig = example_loaders and config = ?c and e = ?H
      and options = no_options and ?s0.0 = initial_state and ?s1.0 = initial_state
      and u = JUndefined and before = "[''_app'']" and rest = "[''home'']", OF f]
  have rejected: "getData (example_host None) example_loaders ''about'' False initial_state =
                    (Rejected ?TE, initial_state)"
    using miss c l by simp
  have "init ?H example_loaders no_options initial_state =
          (Fulfilled JUndefined,
           (write_hydration (context_routesData ?H) (context_renderMode ?H) ''about'' initial_state)
             \<lparr>trace := trace (write_hydration (context_routesData ?H) (context_renderMode ?H)
                                 ''about'' initial_state) @ [Console_error ?TE],
              ICE_DATA_LOADER := Some example_loaders\<rparr>)"
    using boot l ne p ids pre by blast
  then have logged: "init ?H example_loaders no_options initial_state =
     (Fulfilled JUndefined,
      \<lparr>dataLoaderFetcher = None, cache = Map.empty, ICE_DATA_LOADER = Some example_loaders,
       trace = [Console_error ?TE]\<rparr>)"
    by (simp add: write_hydration_def example_defs read_defs)
  from rejected logged show ?thesis by (rule conjI)
qed

text \<open>
  C7 as stated has the failure reach an awaiting caller as a rejected promise whenever a
  descriptor is resolved with no fetcher registered. On the page rendered in the browser,
  seeding resolves the descriptor of \<^verbatim>\<open>about\<close> and the TypeError is caught and logged:
  the promise of \<^verbatim>\<open>init\<close> fulfils, and \<^verbatim>\<open>getData('about')\<close> afterwards fulfils with the RESOLVED
  record of the hydration data.
\<close>

theorem descriptor_failure_swallowed_by_seeding:
  "init (example_host (Some csr_context)) example_loaders no_options initial_state =
     (Fulfilled JUndefined,
      \<lparr>dataLoaderFetcher = None,
       cache = [''about'' \<mapsto> \<lparr>value = JObj [(''title'', JStr ''About'')], status = ''RESOLVED''\<rparr>],
       ICE_DATA_LOADER = Some example_loaders,
       trace = [Cache_set ''about'' \<lparr>value = JObj [(''title'', JStr ''About'')], status = ''RESOLVED''\<rparr>,
                Console_error (JError ''TypeError: dataLoaderFetcher is not a function'')]\<rparr>) \<and>
   fst (getData (example_host (Some csr_context)) example_loaders ''about'' False
          (snd (init (example_host (Some csr_context)) example_loaders no_options initial_state))) =
     Fulfilled (JObj [(''value'', JObj [(''title'', JStr ''About'')]),
                      (''status'', JStr ''RESOLVED'')])"
proof -
  have boot: "init (example_host (Some csr_context)) example_loaders no_options initial_state =
     (Fulfilled JUndefined,
      \<lparr>dataLoaderFetcher = None,
       cache = [''about'' \<mapsto> \<lparr>value = JObj [(''title'', JStr ''About'')], status = ''RESOLVED''\<rparr>],
       ICE_DATA_LOADER = Some example_loaders,
       trace = [Cache_set ''about'' \<lparr>value = JObj [(''title'', JStr ''About'')], status = ''RESOLVED''\<rparr>,
                Console_error (JError ''TypeError: dataLoaderFetcher is not a function'')]\<rparr>)"
    by (simp add: init_def run_plugins_def loadInitialDataInClient_def console_error_def
        example_defs step_defs)
  then show ?thesis
    by (simp add: getData_def record_object_def)
qed

subsection \<open>Bootstrap\<close>

text \<open>
  C8. Once the plugins have fulfilled, a value thrown while the cache is seeded does not stop
  \<^verbatim>\<open>init\<close>: the value is logged with \<^verbatim>\<open>console.error\<close>, the promise of \<^verbatim>\<open>init\<close> fulfils, and
  the handle with \<^verbatim>\<open>getData\<close> is installed on the state that seeding left at the throw.
\<close>

theorem init_survives_seeding_error:
  assumes "run_plugins e options s = (Fulfilled u, s1)"
    and "loadInitialDataInClient e dataloaderConfig (register_fetcher options s1) = (Some err, s3)"
  shows "init e dataloaderConfig options s =
           (Fulfilled JUndefined,
            s3\<lparr>trace := trace s3 @ [Console_error err], ICE_DATA_LOADER := Some dataloaderConfig\<rparr>) \<and>
         ICE_DATA_LOADER (snd (init e dataloaderConfig options s)) = Some dataloaderConfig"
  using assms by (simp add: init_after_plugins console_error_def)

theorem init_survives_seeding_error_witness:
  "init (example_host (Some csr_context)) example_loaders no_options initial_state =
     (Fulfilled JUndefined,
      \<lparr>dataLoaderFetcher = None,
       cache = [''about'' \<mapsto> \<lparr>value = JObj [(''title'', JStr ''About'')], status = ''RESOLVED''\<rparr>],
       ICE_DATA_LOADER = Some example_loaders,
       trace = [Cache_set ''about'' \<lparr>value = JObj [(''title'', JStr ''About'')], status = ''RESOLVED''\<rparr>,
                Console_error (JError ''TypeError: dataLoaderFetcher is not a function'')]\<rparr>)"
proof -
  have p: "run_plugins (example_host (Some csr_context)) no_options initial_state =
             (Fulfilled JUndefined, initial_state)"
    by (simp add: run_plugins_def no_options_def)
  have l: "loadInitialDataInClient (example_host (Some csr_context)) example_loaders
             (register_fetcher no_options initial_state) =
           (Some (JError ''TypeError: dataLoaderFetcher is not a function''),
            \<lparr>dataLoaderFetcher = None,
             cache = [''about'' \<mapsto> \<lparr>value = JObj [(''title'', JStr ''About'')], status = ''RESOLVED''\<rparr>],
             ICE_DATA_LOADER = None,
             trace = [Cache_set ''about'' \<lparr>value = JObj [(''title'', JStr ''About'')], status = ''RESOLVED''\<rparr>]\<rparr>)"
    by (simp add: loadInitialDataInClient_def example_defs step_defs)
  from init_survives_seeding_error [OF p l] show ?thesis by simp
qed

text \<open>
  C10. When the seeding of an id throws, the ids after it in
  \<^verbatim>\<open>['_app'].concat(matchedIds)\<close> are not processed: seeding ends in the state of the throw,
  nothing is written or called for the remaining ids, and \<^verbatim>\<open>init\<close> still logs the error and
  installs the handle. The throw is one of \<^verbatim>\<open>callDataLoader\<close> on the declaration of the id.
\<close>

theorem seeding_stops_at_throw:
  assumes "run_plugins e options s = (Fulfilled u, s1)"
    and "''_app'' # context_matchedIds e = before @ rid # rest"
    and "forEach_id e dataloaderConfig (context_routesData e) (context_renderMode e) before
           (register_fetcher options s1) = (None, s2)"
    and "seed_id e dataloaderConfig (context_routesData e) (context_renderMode e) rid s2 =
           (Some err, s3)"
  shows "loadInitialDataInClient e dataloaderConfig (register_fetcher options s1) = (Some err, s3) \<and>
         init e dataloaderConfig options s =
           (Fulfilled JUndefined,
            s3\<lparr>trace := trace s3 @ [Console_error err], ICE_DATA_LOADER := Some dataloaderConfig\<rparr>) \<and>
         (\<exists>dataLoader sh. get_loader dataloaderConfig rid = Some dataLoader \<and>
            callDataLoader e dataLoader (requestContext e) sh = (Inl err, s3))"
proof -
  have seeded: "loadInitialDataInClient e dataloaderConfig (register_fetcher options s1) =
                  (Some err, s3)"
    unfolding loadInitialDataInClient_def assms(2)
    using assms(3) assms(4) by (rule forEach_id_throw_at)
  then have logged: "init e dataloaderConfig options s =
           (Fulfilled JUndefined,
            s3\<lparr>trace := trace s3 @ [Console_error err], ICE_DATA_LOADER := Some dataloaderConfig\<rparr>)"
    using assms(1) by (simp add: init_after_plugins console_error_def)
  have thrown: "\<exists>dataLoader sh. get_loader dataloaderConfig rid = Some dataLoader \<and>
            callDataLoader e dataLoader (requestContext e) sh = (Inl err, s3)"
    using assms(4) by (rule seed_id_throws_in_callDataLoader)
  from seeded logged thrown show ?thesis by blast
qed

theorem seeding_stops_at_throw_witness:
  "init (example_host (Some ssg_context)) example_loaders no_options initial_state =
     (Fulfilled JUndefined,
      \<lparr>dataLoaderFetcher = None, cache = Map.empty, ICE_DATA_LOADER = Some example_loaders,
       trace = [Console_error (JError ''TypeError: dataLoaderFetcher is not a function'')]\<rparr>)"
proof -
  let ?H = "example_host (Some ssg_context)"
  have p: "run_plugins ?H no_options initial_state = (Fulfilled JUndefined, initial_state)"
    by (simp add: run_plugins_def no_options_def)
  have ids: "''_app'' # context_matchedIds ?H = [''_app''] @ ''about'' # [''home'']"
    by (simp add: example_defs)
  have pre: "forEach_id ?H example_loaders (context_routesData ?H) (context_renderMode ?H)
               [''_app''] (register_fetcher no_options initial_state) = (None, initial_state)"
    by (simp add: example_defs step_defs)
  have thr: "seed_id ?H example_loaders (context_routesData ?H) (context_renderMode ?H) ''about''
               initial_state =
             (Some (JError ''TypeError: dataLoaderFetcher is not a function''), initial_state)"
    by (simp add: example_defs step_defs)
  from seeding_stops_at_throw [OF p ids pre thr] have
    "init ?H example_loaders no_options initial_state =
       (Fulfilled JUndefined,
        initial_state\<lparr>trace := trace initial_state @
                         [Console_error (JError ''TypeError: dataLoaderFetcher is not a function'')],
                       ICE_DATA_LOADER := Some example_loaders\<rparr>)"
    by blast
  then show ?thesis
    by (simp add: initial_state_def)
qed

text \<open>
  C3, as the code has it. In the scenario (matched ids \<^verbatim>\<open>['home']\<close>, hydration data for
  \<^verbatim>\<open>_app\<close> only, render mode SSR, loader \<^verbatim>\<open>fetchHomeData\<close> for \<^verbatim>\<open>home\<close>), after bootstrap
  \<^verbatim>\<open>getData('_app')\<close> fulfils with the RESOLVED record of the hydration data and calls
  nothing. The loader \<^verbatim>\<open>fetchHomeData\<close> is called once, by seeding: \<^verbatim>\<open>home\<close> has no
  hydration data, so its loader is resolved. This holds whatever the loader does and
  whatever plugins run, provided they fulfil.
\<close>

theorem scenario_bootstrap:
  assumes "ICE_APP_CONTEXT e = Some scenario_context"
    and "fst (run_plugins e options initial_state) = Fulfilled u"
  shows "fst (init e scenario_loaders options initial_state) = Fulfilled JUndefined \<and>
         getData e scenario_loaders ''_app'' False
             (snd (init e scenario_loaders options initial_state)) =
           (Fulfilled (JObj [(''value'', JObj [(''user'', JStr ''x'')]),
                             (''status'', JStr ''RESOLVED'')]),
            snd (init e scenario_loaders options initial_state)) \<and>
         filter is_invocation (trace (snd (init e scenario_loaders options initial_state))) =
           [Invoke_loader ''fetchHomeData'' (requestContext e)]"
proof -
  define s1 where "s1 = snd (run_plugins e options initial_state)"
  have p: "run_plugins e options initial_state = (Fulfilled u, s1)"
    using assms(2) by (simp add: s1_def prod_eq_iff)
  have ctx: "context_matchedIds e = [''home'']"
      "context_routesData e = [''_app'' \<mapsto> JObj [(''user'', JStr ''x'')]]"
      "context_renderMode e = Some ''SSR''"
    using assms(1)
    by (simp_all add: context_matchedIds_def context_routesData_def context_renderMode_def
        scenario_context_def)
  define s0 where "s0 = register_fetcher options s1"
  have "filter is_invocation (trace s1) = []"
    using run_plugins_frame [of e options initial_state] by (simp add: s1_def initial_state_def)
  then have s0: "filter is_invocation (trace s0) = []"
    by (simp add: s0_def register_fetcher_def setFetcher_def split: option.splits)
  define hydrated where
    "hydrated = cache_set ''_app'' \<lparr>value = JObj [(''user'', JStr ''x'')], status = ''RESOLVED''\<rparr> s0"
  have app: "seed_id e scenario_loaders (context_routesData e) (context_renderMode e) ''_app'' s0 =
               (None, hydrated)"
    by (simp add: seed_id_def ctx hydrated_def read_defs)
  have h: "cache hydrated ''_app'' =
             Some \<lparr>value = JObj [(''user'', JStr ''x'')], status = ''RESOLVED''\<rparr>"
      "filter is_invocation (trace hydrated) = []"
    by (simp_all add: hydrated_def cache_set_def s0)
  define called where
    "called = hydrated\<lparr>trace := trace hydrated @ [Invoke_loader ''fetchHomeData'' (requestContext e)]\<rparr>"
  have c: "cache called ''_app'' = cache hydrated ''_app''"
      "filter is_invocation (trace called) = [Invoke_loader ''fetchHomeData'' (requestContext e)]"
    by (simp_all add: called_def h)
  show ?thesis
  proof (cases "apply_function e ''fetchHomeData'' (trace hydrated) (requestContext e)")
    case (Inl err)
    have "seed_id e scenario_loaders (context_routesData e) (context_renderMode e) ''home'' hydrated =
            (Some err, called)"
      using Inl by (simp add: seed_id_def ctx scenario_loaders_def call_function_def called_def read_defs)
    then have "init e scenario_loaders options initial_state =
            (Fulfilled JUndefined, (console_error err called)\<lparr>ICE_DATA_LOADER := Some scenario_loaders\<rparr>)"
      using app by (simp add: init_after_plugins [OF p] loadInitialDataInClient_def ctx s0_def)
    then show ?thesis
      using c h by (simp add: getData_def record_object_def console_error_def)
  next
    case (Inr v)
    have "seed_id e scenario_loaders (context_routesData e) (context_renderMode e) ''home'' hydrated =
            (None, cache_set ''home'' \<lparr>value = v, status = ''LOADING''\<rparr> called)"
      using Inr by (simp add: seed_id_def ctx scenario_loaders_def call_function_def called_def read_defs)
    then have "init e scenario_loaders options initial_state =
            (Fulfilled JUndefined,
             (cache_set ''home'' \<lparr>value = v, status = ''LOADING''\<rparr> called)
               \<lparr>ICE_DATA_LOADER := Some scenario_loaders\<rparr>)"
      using app by (simp add: init_after_plugins [OF p] loadInitialDataInClient_def ctx s0_def)
    then show ?thesis
      using c h by (simp add: getData_def record_object_def cache_set_def)
  qed
qed

theorem scenario_bootstrap_witness:
  "getData (example_host (Some scenario_context)) scenario_loaders ''_app'' False
       (snd (init (example_host (Some scenario_context)) scenario_loaders no_options initial_state)) =
     (Fulfilled (JObj [(''value'', JObj [(''user'', JStr ''x'')]), (''status'', JStr ''RESOLVED'')]),
      snd (init (example_host (Some scenario_context)) scenario_loaders no_options initial_state)) \<and>
   filter is_invocation
       (trace (snd (init (example_host (Some scenario_context)) scenario_loaders no_options
                      initial_state))) =
     [Invoke_loader ''fetchHomeData'' (requestContext (example_host (Some scenario_context)))]"
proof -
  have c: "ICE_APP_CONTEXT (example_host (Some scenario_context)) = Some scenario_context"
    by (simp add: example_host_def)
  have p: "fst (run_plugins (example_host (Some scenario_context)) no_options initial_state) =
             Fulfilled JUndefined"
    by (simp add: run_plugins_def no_options_def)
  from scenario_bootstrap [OF c p] show ?thesis by blast
qed

text \<open>
  C3 as stated says that \<^verbatim>\<open>fetchHomeData\<close> is never called. In the scenario, on the example
  host, the trace of the bootstrap holds its call.
\<close>

theorem scenario_invokes_fetchHomeData:
  "Invoke_loader ''fetchHomeData'' (JObj [(''pathname'', JStr ''/'')]) \<in>
     set (trace (snd (init (example_host (Some scenario_context)) scenario_loaders no_options
                        initial_state)))"
  by (simp add: init_def run_plugins_def loadInitialDataInClient_def example_defs step_defs)

text \<open>
  C9, as the code has it. For an id with truthy hydration data and a loader declaration,
  in a render mode other than SSR and SSG, the seeding of the id writes the RESOLVED record
  under the id and then resolves the declaration. When that returns, a LOADING record with
  the returned value replaces the RESOLVED one under the same key, and between the two
  writes there are only calls of loaders or of the fetcher. When it throws, the RESOLVED
  record stays and the seeding of the id ends with the thrown value.
\<close>

theorem hydration_then_loading:
  assumes "get_property rData rid = d" and "truthy d"
    and "rMode \<noteq> Some ''SSR''" and "rMode \<noteq> Some ''SSG''"
    and "get_loader loaders rid = Some dataLoader"
  shows "(callDataLoader e dataLoader (requestContext e)
            (cache_set rid \<lparr>value = d, status = ''RESOLVED''\<rparr> s) = (Inr loader, s2) \<longrightarrow>
          seed_id e loaders rData rMode rid s =
            (None, cache_set rid \<lparr>value = loader, status = ''LOADING''\<rparr> s2) \<and>
          cache (snd (seed_id e loaders rData rMode rid s)) rid =
            Some \<lparr>value = loader, status = ''LOADING''\<rparr> \<and>
          trace (snd (seed_id e loaders rData rMode rid s)) =
            trace s @ [Cache_set rid \<lparr>value = d, status = ''RESOLVED''\<rparr>] @
            drop (Suc (length (trace s))) (trace s2) @
            [Cache_set rid \<lparr>value = loader, status = ''LOADING''\<rparr>] \<and>
          list_all is_invocation (drop (Suc (length (trace s))) (trace s2))) \<and>
         (callDataLoader e dataLoader (requestContext e)
            (cache_set rid \<lparr>value = d, status = ''RESOLVED''\<rparr> s) = (Inl err, s2) \<longrightarrow>
          seed_id e loaders rData rMode rid s = (Some err, s2) \<and>
          cache s2 rid = Some \<lparr>value = d, status = ''RESOLVED''\<rparr>)"
proof -
  let ?h = "cache_set rid \<lparr>value = d, status = ''RESOLVED''\<rparr> s"
  let ?c = "callDataLoader e dataLoader (requestContext e) ?h"
  have th: "trace ?h = trace s @ [Cache_set rid \<lparr>value = d, status = ''RESOLVED''\<rparr>]"
    by (simp add: cache_set_def)
  obtain evs where evs: "trace (snd ?c) = trace ?h @ evs" "list_all is_invocation evs"
    using callDataLoader_trace [of e dataLoader "requestContext e" ?h] by auto
  have ch: "cache (snd ?c) = cache ?h"
    using callDataLoader_frame [of e dataLoader "requestContext e" ?h] by simp
  have ok: "?c = (Inr loader, s2) \<longrightarrow>
          seed_id e loaders rData rMode rid s =
            (None, cache_set rid \<lparr>value = loader, status = ''LOADING''\<rparr> s2) \<and>
          cache (snd (seed_id e loaders rData rMode rid s)) rid =
            Some \<lparr>value = loader, status = ''LOADING''\<rparr> \<and>
          trace (snd (seed_id e loaders rData rMode rid s)) =
            trace s @ [Cache_set rid \<lparr>value = d, status = ''RESOLVED''\<rparr>] @
            drop (Suc (length (trace s))) (trace s2) @
            [Cache_set rid \<lparr>value = loader, status = ''LOADING''\<rparr>] \<and>
          list_all is_invocation (drop (Suc (length (trace s))) (trace s2))"
  proof
    assume c: "?c = (Inr loader, s2)"
    then have s2: "snd ?c = s2" by simp
    have sd: "seed_id e loaders rData rMode rid s =
            (None, cache_set rid \<lparr>value = loader, status = ''LOADING''\<rparr> s2)"
      using assms c by (simp add: seed_id_def)
    have t2: "trace s2 = trace s @ [Cache_set rid \<lparr>value = d, status = ''RESOLVED''\<rparr>] @ evs"
      using evs(1) th s2 by simp
    show "seed_id e loaders rData rMode rid s =
            (None, cache_set rid \<lparr>value = loader, status = ''LOADING''\<rparr> s2) \<and>
          cache (snd (seed_id e loaders rData rMode rid s)) rid =
            Some \<lparr>value = loader, status = ''LOADING''\<rparr> \<and>
          trace (snd (seed_id e loaders rData rMode rid s)) =
            trace s @ [Cache_set rid \<lparr>value = d, status = ''RESOLVED''\<rparr>] @
            drop (Suc (length (trace s))) (trace s2) @
            [Cache_set rid \<lparr>value = loader, status = ''LOADING''\<rparr>] \<and>
          list_all is_invocation (drop (Suc (length (trace s))) (trace s2))"
      using sd t2 evs(2) by (simp add: cache_set_def)
  qed
  have bad: "?c = (Inl err, s2) \<longrightarrow>
          seed_id e loaders rData rMode rid s = (Some err, s2) \<and>
          cache s2 rid = Some \<lparr>value = d, status = ''RESOLVED''\<rparr>"
  proof
    assume c: "?c = (Inl err, s2)"
    then have s2: "snd ?c = s2" by simp
    have "seed_id e loaders rData rMode rid s = (Some err, s2)"
      using assms c by (simp add: seed_id_def)
    moreover have "cache s2 rid = Some \<lparr>value = d, status = ''RESOLVED''\<rparr>"
      using ch s2 by (simp add: cache_set_def)
    ultimately show "seed_id e loaders rData rMode rid s = (Some err, s2) \<and>
          cache s2 rid = Some \<lparr>value = d, status = ''RESOLVED''\<rparr>" by simp
  qed
  from ok bad show ?thesis by (rule conjI)
qed

theorem hydration_then_loading_witness:
  "seed_id (example_host (Some csr_context)) example_loaders
       [''about'' \<mapsto> JObj [(''title'', JStr ''About'')]] (Some ''CSR'') ''about''
       (register_fetcher with_fetcher initial_state) =
     (None,
      \<lparr>dataLoaderFetcher = Some ''request'',
       cache = [''about'' \<mapsto> \<lparr>value = JPromise (Fulfilled (JObj [(''api'', JStr ''/about'')])),
                                  status = ''LOADING''\<rparr>],
       ICE_DATA_LOADER = None,
       trace = [Cache_set ''about'' \<lparr>value = JObj [(''title'', JStr ''About'')], status = ''RESOLVED''\<rparr>,
                Invoke_fetcher ''request'' (JObj [(''api'', JStr ''/about'')]),
                Cache_set ''about'' \<lparr>value = JPromise (Fulfilled (JObj [(''api'', JStr ''/about'')])),
                                        status = ''LOADING''\<rparr>]\<rparr>)"
proof -
  let ?H = "example_host (Some csr_context)"
  let ?s = "register_fetcher with_fetcher initial_state"
  let ?d = "JObj [(''title'', JStr ''About'')]"
  let ?c = "JObj [(''api'', JStr ''/about'')]"
  let ?s2 = "\<lparr>dataLoaderFetcher = Some ''request'',
       cache = [''about'' \<mapsto> \<lparr>value = ?d, status = ''RESOLVED''\<rparr>],
       ICE_DATA_LOADER = None,
       trace = [Cache_set ''about'' \<lparr>value = ?d, status = ''RESOLVED''\<rparr>,
                Invoke_fetcher ''request'' ?c]\<rparr>"
  have d: "get_property [''about'' \<mapsto> ?d] ''about'' = ?d" by (simp add: get_property_def)
  have t: "truthy ?d" by simp
  have m1: "Some ''CSR'' \<noteq> Some ''SSR''" by simp
  have m2: "Some ''CSR'' \<noteq> Some ''SSG''" by simp
  have l: "get_loader example_loaders ''about'' = Some (Single (Descriptor ?c))"
    by (simp add: example_loaders_def read_defs)
  have c: "callDataLoader ?H (Single (Descriptor ?c)) (requestContext ?H)
             (cache_set ''about'' \<lparr>value = ?d, status = ''RESOLVED''\<rparr> ?s) =
           (Inr (JPromise (Fulfilled ?c)), ?s2)"
    by (simp add: example_defs step_defs)
  note inst = hydration_then_loading [where rData = "[''about'' \<mapsto> ?d]" and rid = "''about''"
      and d = ?d and rMode = "Some ''CSR''" and loaders = example_loaders
      and dataLoader = "Single (Descriptor ?c)" and e = ?H and s = ?s
      and loader = "JPromise (Fulfilled ?c)" and ?s2.0 = ?s2, OF d t m1 m2 l]
  from inst c have "seed_id ?H example_loaders [''about'' \<mapsto> ?d] (Some ''CSR'') ''about'' ?s =
      (None, cache_set ''about'' \<lparr>value = JPromise (Fulfilled ?c), status = ''LOADING''\<rparr> ?s2)"
    by blast
  then show ?thesis by (simp add: cache_set_def)
qed

text \<open>
  C9 as stated has the hydration data discarded for every such id. On a page rendered in
  the browser whose id has hydration data and a descriptor, with no fetcher registered,
  the record under the id after bootstrap is still the RESOLVED one.
\<close>

theorem hydration_kept_when_loader_throws:
  "cache (snd (init (example_host (Some csr_context)) example_loaders no_options initial_state))
       ''about'' =
     Some \<lparr>value = JObj [(''title'', JStr ''About'')], status = ''RESOLVED''\<rparr>"
  by (simp add: init_def run_plugins_def loadInitialDataInClient_def console_error_def
      example_defs step_defs)

subsection \<open>The snapshot of a statically generated page\<close>

lemma seed_id_cache_keys:
  assumes "k \<noteq> rid" and "k \<noteq> rid @ ''_ssg''"
  shows "cache (snd (seed_id e loaders rData rMode rid s)) k = cache s k"
proof -
  let ?d = "get_property rData rid"
  let ?key = "if rMode = Some ''SSG'' then rid @ ''_ssg'' else rid"
  let ?h = "if truthy ?d then cache_set ?key \<lparr>value = ?d, status = ''RESOLVED''\<rparr> s else s"
  have h: "cache ?h k = cache s k"
    using assms by (simp add: cache_set_def)
  show ?thesis
  proof (cases "get_loader loaders rid")
    case None
    then show ?thesis using assms by (simp add: seed_id_def Let_def cache_set_def)
  next
    case (Some dataLoader)
    obtain r s2 where c: "callDataLoader e dataLoader (requestContext e) ?h = (r, s2)"
      by (cases "callDataLoader e dataLoader (requestContext e) ?h")
    have "cache s2 = cache ?h"
      using callDataLoader_frame [of e dataLoader "requestContext e" ?h] c by simp
    then have s2: "cache s2 k = cache s k" using h by simp
    have early: "cache (cache_set rid \<lparr>value = ?d, status = ''RESOLVED''\<rparr> s) k = cache s k"
      using assms(1) by (simp add: cache_set_def)
    have "seed_id e loaders rData rMode rid s =
            (if truthy ?d \<and> rMode = Some ''SSR''
             then (None, cache_set rid \<lparr>value = ?d, status = ''RESOLVED''\<rparr> s)
             else (case r of Inl err \<Rightarrow> (Some err, s2)
                   | Inr loader \<Rightarrow> (None, cache_set rid \<lparr>value = loader, status = ''LOADING''\<rparr> s2)))"
      using Some c by (simp add: seed_id_def Let_def)
    then show ?thesis
      using s2 early assms(1) by (cases r) (simp_all add: cache_set_def)
  qed
qed

lemma seed_id_ssg_snapshot:
  assumes "get_property rData rid = d" and "truthy d"
  shows "cache (snd (seed_id e loaders rData (Some ''SSG'') rid s)) (rid @ ''_ssg'') =
           Some \<lparr>value = d, status = ''RESOLVED''\<rparr>"
proof -
  let ?h = "cache_set (rid @ ''_ssg'') \<lparr>value = d, status = ''RESOLVED''\<rparr> s"
  have h: "cache ?h (rid @ ''_ssg'') = Some \<lparr>value = d, status = ''RESOLVED''\<rparr>"
    by (simp add: cache_set_def)
  show ?thesis
  proof (cases "get_loader loaders rid")
    case None
    then show ?thesis using assms h by (simp add: seed_id_def Let_def)
  next
    case (Some dataLoader)
    obtain r s2 where c: "callDataLoader e dataLoader (requestContext e) ?h = (r, s2)"
      by (cases "callDataLoader e dataLoader (requestContext e) ?h")
    have "cache s2 = cache ?h"
      using callDataLoader_frame [of e dataLoader "requestContext e" ?h] c by simp
    then have s2: "cache s2 (rid @ ''_ssg'') = Some \<lparr>value = d, status = ''RESOLVED''\<rparr>"
      using h by simp
    show ?thesis
      using Some c s2 assms
      by (cases r) (simp_all add: seed_id_def Let_def cache_set_def)
  qed
qed

lemma forEach_id_keeps_snapshot:
  assumes "get_property rData rid = d" and "truthy d"
    and "rid @ ''_ssg'' \<notin> set ids"
    and "cache s (rid @ ''_ssg'') = Some \<lparr>value = d, status = ''RESOLVED''\<rparr>"
  shows "cache (snd (forEach_id e loaders rData (Some ''SSG'') ids s)) (rid @ ''_ssg'') =
           Some \<lparr>value = d, status = ''RESOLVED''\<rparr>"
  using assms(3) assms(4)
proof (induction ids arbitrary: s)
  case Nil
  then show ?case by simp
next
  case (Cons j ids)
  obtain r s1 where st: "seed_id e loaders rData (Some ''SSG'') j s = (r, s1)"
    by (cases "seed_id e loaders rData (Some ''SSG'') j s")
  have s1: "cache s1 (rid @ ''_ssg'') = Some \<lparr>value = d, status = ''RESOLVED''\<rparr>"
  proof (cases "j = rid")
    case True
    then show ?thesis
      using seed_id_ssg_snapshot [where rData = rData and rid = rid and d = d and e = e
          and loaders = loaders and s = s, OF assms(1) assms(2)] st by simp
  next
    case False
    have "rid @ ''_ssg'' \<noteq> j" using Cons.prems(1) by auto
    moreover have "rid @ ''_ssg'' \<noteq> j @ ''_ssg''" using False by simp
    ultimately have "cache (snd (seed_id e loaders rData (Some ''SSG'') j s)) (rid @ ''_ssg'') =
                       cache s (rid @ ''_ssg'')"
      by (rule seed_id_cache_keys)
    then show ?thesis using st Cons.prems(2) by simp
  qed
  have rest: "rid @ ''_ssg'' \<notin> set ids" using Cons.prems(1) by simp
  show ?case
  proof (cases r)
    case None
    then show ?thesis using st Cons.IH [OF rest s1] by simp
  next
    case (Some err)
    then show ?thesis using st s1 by simp
  qed
qed

text \<open>
  C2, as the code has it. In render mode SSG, for an id of \<^verbatim>\<open>['_app'].concat(matchedIds)\<close>
  whose hydration data is truthy: when the plugins fulfil, the seeding of the ids before it
  does not throw, and no id after it is the id followed by \<^verbatim>\<open>_ssg\<close>, then after bootstrap
  \<^verbatim>\<open>getData(id, {ssg: true})\<close> fulfils with the RESOLVED record of the hydration data and
  leaves the state as it was, so that it calls no loader.
\<close>

theorem ssg_snapshot_served:
  assumes "run_plugins e options s = (Fulfilled u, s1)"
    and "''_app'' # context_matchedIds e = before @ rid # rest"
    and "forEach_id e dataloaderConfig (context_routesData e) (context_renderMode e) before
           (register_fetcher options s1) = (None, s2)"
    and "context_renderMode e = Some ''SSG''"
    and "get_property (context_routesData e) rid = d" and "truthy d"
    and "rid @ ''_ssg'' \<notin> set rest"
  shows "fst (init e dataloaderConfig options s) = Fulfilled JUndefined \<and>
         getData e dataloaderConfig rid True (snd (init e dataloaderConfig options s)) =
           (Fulfilled (record_object \<lparr>value = d, status = ''RESOLVED''\<rparr>),
            snd (init e dataloaderConfig options s))"
proof -
  let ?R = "\<lparr>value = d, status = ''RESOLVED''\<rparr>"
  let ?seed = "loadInitialDataInClient e dataloaderConfig (register_fetcher options s1)"
  have "rid @ ''_ssg'' \<noteq> rid" by simp
  then have later: "rid @ ''_ssg'' \<notin> set (rid # rest)" using assms(7) by simp
  have split: "?seed = forEach_id e dataloaderConfig (context_routesData e) (Some ''SSG'')
                         (rid # rest) s2"
    using assms(3) by (simp add: loadInitialDataInClient_def assms(2) assms(4) forEach_id_append)
  obtain r s3 where st: "seed_id e dataloaderConfig (context_routesData e) (Some ''SSG'') rid s2 =
                           (r, s3)"
    by (cases "seed_id e dataloaderConfig (context_routesData e) (Some ''SSG'') rid s2")
  have s3: "cache s3 (rid @ ''_ssg'') = Some ?R"
    using seed_id_ssg_snapshot [where rData = "context_routesData e" and rid = rid and d = d
        and e = e and loaders = dataloaderConfig and s = s2, OF assms(5) assms(6)] st by simp
  have seeded: "cache (snd ?seed) (rid @ ''_ssg'') = Some ?R"
  proof (cases r)
    case None
    then show ?thesis
      using split st forEach_id_keeps_snapshot [where rData = "context_routesData e"
          and rid = rid and d = d and ids = rest and s = s3 and e = e
          and loaders = dataloaderConfig, OF assms(5) assms(6) assms(7) s3]
      by simp
  next
    case (Some err)
    then show ?thesis using split st s3 by simp
  qed
  obtain r4 s4 where sd: "?seed = (r4, s4)" by (cases ?seed)
  have fin: "fst (init e dataloaderConfig options s) = Fulfilled JUndefined \<and>
              cache (snd (init e dataloaderConfig options s)) = cache s4"
    using sd by (cases r4) (simp_all add: init_after_plugins [OF assms(1)] console_error_def)
  then have "cache (snd (init e dataloaderConfig options s)) (rid @ ''_ssg'') = Some ?R"
    using seeded sd by simp
  then have "getData e dataloaderConfig rid True (snd (init e dataloaderConfig options s)) =
           (Fulfilled (record_object ?R), snd (init e dataloaderConfig options s))"
    by (simp add: getData_def)
  with fin show ?thesis by simp
qed

theorem ssg_snapshot_served_witness:
  "getData (example_host (Some ssg_context)) example_loaders ''home'' True
       (snd (init (example_host (Some ssg_context)) example_loaders with_fetcher initial_state)) =
     (Fulfilled (JObj [(''value'', JObj [(''title'', JStr ''Home'')]), (''status'', JStr ''RESOLVED'')]),
      snd (init (example_host (Some ssg_context)) example_loaders with_fetcher initial_state))"
proof -
  let ?H = "example_host (Some ssg_context)"
  let ?s2 = "\<lparr>dataLoaderFetcher = Some ''request'',
       cache = [''about'' \<mapsto> \<lparr>value = JPromise (Fulfilled (JObj [(''api'', JStr ''/about'')])),
                                  status = ''LOADING''\<rparr>],
       ICE_DATA_LOADER = None,
       trace = [Invoke_fetcher ''request'' (JObj [(''api'', JStr ''/about'')]),
                Cache_set ''about'' \<lparr>value = JPromise (Fulfilled (JObj [(''api'', JStr ''/about'')])),
                                        status = ''LOADING''\<rparr>]\<rparr>"
  have p: "run_plugins ?H with_fetcher initial_state = (Fulfilled JUndefined, initial_state)"
    by (simp add: run_plugins_def with_fetcher_def)
  have ids: "''_app'' # context_matchedIds ?H = [''_app'', ''about''] @ ''home'' # []"
    by (simp add: example_defs)
  have pre: "forEach_id ?H example_loaders (context_routesData ?H) (context_renderMode ?H)
               [''_app'', ''about''] (register_fetcher with_fetcher initial_state) = (None, ?s2)"
    by (simp add: example_defs step_defs)
  have mode: "context_renderMode ?H = Some ''SSG''"
    by (simp add: example_defs)
  have data: "get_property (context_routesData ?H) ''home'' = JObj [(''title'', JStr ''Home'')]"
    by (simp add: example_defs read_defs)
  have t: "truthy (JObj [(''title'', JStr ''Home'')])" by simp
  have n: "''home'' @ ''_ssg'' \<notin> set []" by simp
  from ssg_snapshot_served [OF p ids pre mode data t n] show ?thesis
    by (simp add: record_object_def)
qed

text \<open>
  C2 as stated asks for no more than an entry in \<^verbatim>\<open>routesData\<close>. On a statically generated
  page where the descriptor of an earlier id is resolved with no fetcher registered, the
  seeding stops before \<^verbatim>\<open>home\<close>: \<^verbatim>\<open>getData('home', {ssg: true})\<close> finds no record, calls the
  loader of \<^verbatim>\<open>home\<close> and fulfils with its result.
\<close>

theorem ssg_snapshot_missed_after_throw:
  "getData (example_host (Some ssg_context)) example_loaders ''home'' True
       (snd (init (example_host (Some ssg_context)) example_loaders no_options initial_state)) =
     (Fulfilled (JStr ''fetchHomeData''),
      \<lparr>dataLoaderFetcher = None, cache = Map.empty, ICE_DATA_LOADER = Some example_loaders,
       trace = [Console_error (JError ''TypeError: dataLoaderFetcher is not a function''),
                Invoke_loader ''fetchHomeData'' (JObj [(''pathname'', JStr ''/'')])]\<rparr>)"
proof -
  have "init (example_host (Some ssg_context)) example_loaders no_options initial_state =
     (Fulfilled JUndefined,
      \<lparr>dataLoaderFetcher = None, cache = Map.empty, ICE_DATA_LOADER = Some example_loaders,
       trace = [Console_error (JError ''TypeError: dataLoaderFetcher is not a function'')]\<rparr>)"
    by (simp add: init_def run_plugins_def loadInitialDataInClient_def console_error_def
        example_defs step_defs)
  then show ?thesis
    by (simp add: getData_def example_defs step_defs)
qed

text \<open>
  The other two conditions are needed as well. An entry of \<^verbatim>\<open>routesData\<close> that is \<^verbatim>\<open>null\<close> is
  not seeded, and a later id that is the id followed by \<^verbatim>\<open>_ssg\<close> takes the key for its own
  LOADING record; in both cases \<^verbatim>\<open>getData('home', {ssg: true})\<close> fulfils with the result of a
  loader.
\<close>

lemma ssg_null_entry_not_seeded:
  "getData
       (example_host (Some \<lparr>matchedIds = Some [''home''], routesData = Some [''home'' \<mapsto> JNull],
                             renderMode = Some ''SSG''\<rparr>))
       example_loaders ''home'' True
       (snd (init
          (example_host (Some \<lparr>matchedIds = Some [''home''], routesData = Some [''home'' \<mapsto> JNull],
                                renderMode = Some ''SSG''\<rparr>))
          example_loaders no_options initial_state)) =
     (Fulfilled (JStr ''fetchHomeData''),
      \<lparr>dataLoaderFetcher = None,
       cache = [''home'' \<mapsto> \<lparr>value = JPromise (Fulfilled (JStr ''fetchHomeData'')),
                                 status = ''LOADING''\<rparr>],
       ICE_DATA_LOADER = Some example_loaders,
       trace = [Invoke_loader ''fetchHomeData'' (JObj [(''pathname'', JStr ''/'')]),
                Cache_set ''home'' \<lparr>value = JPromise (Fulfilled (JStr ''fetchHomeData'')),
                                       status = ''LOADING''\<rparr>,
                Invoke_loader ''fetchHomeData'' (JObj [(''pathname'', JStr ''/'')])]\<rparr>)"
  by (simp add: init_def run_plugins_def loadInitialDataInClient_def getData_def
      example_defs step_defs)

lemma ssg_key_taken_by_later_id:
  "getData
       (example_host (Some \<lparr>matchedIds = Some [''home'', ''home_ssg''],
                             routesData = Some [''home'' \<mapsto> JObj [(''title'', JStr ''Home'')]],
                             renderMode = Some ''SSG''\<rparr>))
       [''home_ssg'' \<mapsto> Single (Fn ''fetchOther'')] ''home'' True
       (snd (init
          (example_host (Some \<lparr>matchedIds = Some [''home'', ''home_ssg''],
                                routesData = Some [''home'' \<mapsto> JObj [(''title'', JStr ''Home'')]],
                                renderMode = Some ''SSG''\<rparr>))
          [''home_ssg'' \<mapsto> Single (Fn ''fetchOther'')] no_options initial_state)) =
     (Fulfilled (JStr ''fetchOther''),
      snd (init
          (example_host (Some \<lparr>matchedIds = Some [''home'', ''home_ssg''],
                                routesData = Some [''home'' \<mapsto> JObj [(''title'', JStr ''Home'')]],
                                renderMode = Some ''SSG''\<rparr>))
          [''home_ssg'' \<mapsto> Single (Fn ''fetchOther'')] no_options initial_state))"
  by (simp add: init_def run_plugins_def loadInitialDataInClient_def getData_def await_stored_def
      example_defs step_defs)

subsection \<open>One call for all retrievals\<close>

lemma getData_LOADING:
  assumes "cache s rid = Some r" and "status r = ''LOADING''"
  shows "getData e dataloaderConfig rid False s = (await_stored e (value r), s)"
  using assms by (simp add: getData_def)

lemma repeat_getData_LOADING:
  assumes "cache s rid = Some r" and "status r = ''LOADING''"
  shows "repeat_getData e dataloaderConfig rid False n s = (replicate n (await_stored e (value r)), s)"
  by (induction n) (simp_all add: getData_LOADING [OF assms])

lemma seed_id_function_LOADING:
  assumes "seed_id e loaders rData rMode rid s = (None, s1)"
    and "get_loader loaders rid = Some (Single (Fn f))"
    and "cache s1 rid = Some r" and "status r = ''LOADING''"
  shows "\<exists>pre. trace s1 = trace s @ pre @ [Invoke_loader f (requestContext e), Cache_set rid r] \<and>
             apply_function e f (trace s @ pre) (requestContext e) = Inr (value r) \<and>
             filter is_invocation pre = []"
proof -
  let ?d = "get_property rData rid"
  let ?key = "if rMode = Some ''SSG'' then rid @ ''_ssg'' else rid"
  let ?h = "if truthy ?d then cache_set ?key \<lparr>value = ?d, status = ''RESOLVED''\<rparr> s else s"
  have not_early: "\<not> (truthy ?d \<and> rMode = Some ''SSR'')"
  proof
    assume early: "truthy ?d \<and> rMode = Some ''SSR''"
    then have "s1 = cache_set rid \<lparr>value = ?d, status = ''RESOLVED''\<rparr> s"
      using assms(1) by (simp add: seed_id_def Let_def)
    then have "cache s1 rid = Some \<lparr>value = ?d, status = ''RESOLVED''\<rparr>"
      by (simp add: cache_set_def)
    then show False using assms(3) assms(4) by auto
  qed
  obtain v where run: "apply_function e f (trace ?h) (requestContext e) = Inr v"
    and s1: "s1 = cache_set rid \<lparr>value = v, status = ''LOADING''\<rparr>
                    (?h\<lparr>trace := trace ?h @ [Invoke_loader f (requestContext e)]\<rparr>)"
    using assms(1) assms(2) not_early
    by (cases "apply_function e f (trace ?h) (requestContext e)")
       (auto simp: seed_id_def Let_def call_function_def split: if_splits)
  have r: "r = \<lparr>value = v, status = ''LOADING''\<rparr>"
    using assms(3) s1 by (simp add: cache_set_def)
  have t: "trace s1 = trace ?h @ [Invoke_loader f (requestContext e), Cache_set rid r]"
    using s1 r by (simp add: cache_set_def)
  obtain pre where pre: "trace ?h = trace s @ pre" "filter is_invocation pre = []"
    by (cases "truthy ?d") (simp_all add: cache_set_def)
  have "trace s1 = trace s @ pre @ [Invoke_loader f (requestContext e), Cache_set rid r]"
    using t pre(1) by simp
  moreover have "apply_function e f (trace s @ pre) (requestContext e) = Inr (value r)"
    using run r pre(1) by simp
  ultimately show ?thesis using pre(2) by blast
qed

lemma call_member_calls:
  assumes "\<not> member_names f l"
  shows "filter (is_call_of f) (trace (snd (call_member e l ctx s))) =
         filter (is_call_of f) (trace s)"
  using assms
  by (cases l) (simp_all add: loadDataByCustomFetcher_def call_function_def split: option.splits)

lemma map_members_calls:
  assumes "\<not> list_ex (member_names f) ls"
  shows "filter (is_call_of f) (trace (snd (map_members e ls ctx s))) =
         filter (is_call_of f) (trace s)"
  using assms
proof (induction ls arbitrary: s)
  case Nil
  show ?case by simp
next
  case (Cons l ls)
  obtain r s1 where m: "call_member e l ctx s = (r, s1)" by (cases "call_member e l ctx s")
  have c1: "filter (is_call_of f) (trace s1) = filter (is_call_of f) (trace s)"
    using call_member_calls [of f l e ctx s] Cons.prems m by simp
  show ?case
  proof (cases r)
    case (Inl err)
    then show ?thesis using m c1 by simp
  next
    case (Inr v)
    obtain r2 s2 where m2: "map_members e ls ctx s1 = (r2, s2)"
      by (cases "map_members e ls ctx s1")
    have "filter (is_call_of f) (trace s2) = filter (is_call_of f) (trace s1)"
      using Cons.IH [of s1] Cons.prems m2 by simp
    then show ?thesis using Inr m m2 c1 by (cases r2) simp_all
  qed
qed

lemma callDataLoader_calls:
  assumes "\<not> names_function f dataLoader"
  shows "filter (is_call_of f) (trace (snd (callDataLoader e dataLoader ctx s))) =
         filter (is_call_of f) (trace s)"
proof (cases dataLoader)
  case (Single l)
  then show ?thesis
    using assms call_member_calls [of f l e ctx s] by (cases l) simp_all
next
  case (Batch ls)
  obtain r s1 where m: "map_members e ls ctx s = (r, s1)" by (cases "map_members e ls ctx s")
  then show ?thesis
    using Batch assms map_members_calls [of f ls e ctx s] by (cases r) simp_all
qed

lemma seed_id_calls_other:
  assumes "\<not> declares loaders f j"
  shows "filter (is_call_of f) (trace (snd (seed_id e loaders rData rMode j s))) =
         filter (is_call_of f) (trace s)"
proof -
  let ?d = "get_property rData j"
  let ?h = "if truthy ?d
            then cache_set (if rMode = Some ''SSG'' then j @ ''_ssg'' else j)
                   \<lparr>value = ?d, status = ''RESOLVED''\<rparr> s
            else s"
  have h: "filter (is_call_of f) (trace ?h) = filter (is_call_of f) (trace s)"
    by (simp add: cache_set_def)
  show ?thesis
  proof (cases "get_loader loaders j")
    case None
    then show ?thesis by (simp add: seed_id_def Let_def cache_set_def)
  next
    case (Some dataLoader)
    then have nf: "\<not> names_function f dataLoader" using assms by (simp add: declares_def)
    obtain r s2 where c: "callDataLoader e dataLoader (requestContext e) ?h = (r, s2)"
      by (cases "callDataLoader e dataLoader (requestContext e) ?h")
    have "filter (is_call_of f) (trace s2) = filter (is_call_of f) (trace ?h)"
      using callDataLoader_calls [OF nf, of e "requestContext e" ?h] c by simp
    then have s2: "filter (is_call_of f) (trace s2) = filter (is_call_of f) (trace s)"
      using h by simp
    show ?thesis
      using Some c s2 h by (cases r) (simp_all add: seed_id_def Let_def cache_set_def)
  qed
qed

lemma not_LOADING_after_RESOLVED:
  "not_LOADING s rid \<Longrightarrow> not_LOADING (cache_set k \<lparr>value = v, status = ''RESOLVED''\<rparr> s) rid"
  by (simp add: cache_set_def not_LOADING_def)

lemma not_LOADING_after_other:
  "j \<noteq> rid \<Longrightarrow> not_LOADING s rid \<Longrightarrow>
   not_LOADING (cache_set j \<lparr>value = v, status = ''LOADING''\<rparr> s) rid"
  by (simp add: cache_set_def not_LOADING_def)

lemma not_LOADING_same_cache:
  "cache s1 = cache s \<Longrightarrow> not_LOADING s1 rid = not_LOADING s rid"
  by (simp add: not_LOADING_def)

lemma no_invocation_no_call:
  "filter is_invocation evs = [] \<Longrightarrow> filter (is_call_of f) evs = []"
proof (induction evs)
  case Nil
  show ?case by simp
next
  case (Cons ev evs)
  then show ?case by (cases ev) (simp_all split: if_splits)
qed

lemma seed_id_not_LOADING_other:
  assumes "j \<noteq> rid" and "not_LOADING s rid"
  shows "not_LOADING (snd (seed_id e loaders rData rMode j s)) rid"
proof -
  let ?d = "get_property rData j"
  let ?h = "if truthy ?d
            then cache_set (if rMode = Some ''SSG'' then j @ ''_ssg'' else j)
                   \<lparr>value = ?d, status = ''RESOLVED''\<rparr> s
            else s"
  have h: "not_LOADING ?h rid"
    using assms(2) by (simp add: not_LOADING_after_RESOLVED)
  have early: "not_LOADING (cache_set j \<lparr>value = ?d, status = ''RESOLVED''\<rparr> s) rid"
    using assms(2) by (rule not_LOADING_after_RESOLVED)
  show ?thesis
  proof (cases "get_loader loaders j")
    case None
    then show ?thesis using assms(2) early by (simp add: seed_id_def Let_def not_LOADING_after_RESOLVED)
  next
    case (Some dataLoader)
    obtain r s2 where c: "callDataLoader e dataLoader (requestContext e) ?h = (r, s2)"
      by (cases "callDataLoader e dataLoader (requestContext e) ?h")
    have "cache s2 = cache ?h"
      using callDataLoader_frame [of e dataLoader "requestContext e" ?h] c by simp
    then have s2: "not_LOADING s2 rid" using h not_LOADING_same_cache by blast
    have l: "not_LOADING (cache_set j \<lparr>value = v, status = ''LOADING''\<rparr> s2) rid" for v
      using assms(1) s2 by (rule not_LOADING_after_other)
    have "seed_id e loaders rData rMode j s =
            (if truthy ?d \<and> rMode = Some ''SSR''
             then (None, cache_set j \<lparr>value = ?d, status = ''RESOLVED''\<rparr> s)
             else (case r of Inl err \<Rightarrow> (Some err, s2)
                   | Inr loader \<Rightarrow> (None, cache_set j \<lparr>value = loader, status = ''LOADING''\<rparr> s2)))"
      using Some c by (simp add: seed_id_def Let_def)
    then show ?thesis using s2 l early by (cases r) simp_all
  qed
qed

lemma forEach_id_other:
  assumes "rid \<notin> set ids" and "\<not> list_ex (declares loaders f) ids"
  shows "filter (is_call_of f) (trace (snd (forEach_id e loaders rData rMode ids s))) =
           filter (is_call_of f) (trace s) \<and>
         (not_LOADING s rid \<longrightarrow> not_LOADING (snd (forEach_id e loaders rData rMode ids s)) rid)"
  using assms
proof (induction ids arbitrary: s)
  case Nil
  show ?case by simp
next
  case (Cons j ids)
  obtain r s1 where st: "seed_id e loaders rData rMode j s = (r, s1)"
    by (cases "seed_id e loaders rData rMode j s")
  have nd: "\<not> declares loaders f j" using Cons.prems(2) by simp
  have c1: "filter (is_call_of f) (trace s1) = filter (is_call_of f) (trace s)"
    using seed_id_calls_other [OF nd, of e rData rMode s] st by simp
  have jr: "j \<noteq> rid" using Cons.prems(1) by auto
  have n1: "not_LOADING s rid \<longrightarrow> not_LOADING s1 rid"
    using seed_id_not_LOADING_other [OF jr, of s e loaders rData rMode] st by simp
  have r1: "rid \<notin> set ids" "\<not> list_ex (declares loaders f) ids"
    using Cons.prems by simp_all
  show ?case
  proof (cases r)
    case None
    then show ?thesis using st c1 n1 Cons.IH [OF r1, of s1] by simp
  next
    case (Some err)
    then show ?thesis using st c1 n1 by simp
  qed
qed

lemma seed_id_function:
  assumes "get_loader loaders rid = Some (Single (Fn f))" and "not_LOADING s rid"
  shows "not_LOADING (snd (seed_id e loaders rData rMode rid s)) rid \<or>
         (fst (seed_id e loaders rData rMode rid s) = None \<and>
          filter (is_call_of f) (trace (snd (seed_id e loaders rData rMode rid s))) =
            filter (is_call_of f) (trace s) @ [Invoke_loader f (requestContext e)])"
proof -
  let ?d = "get_property rData rid"
  let ?h = "if truthy ?d
            then cache_set (if rMode = Some ''SSG'' then rid @ ''_ssg'' else rid)
                   \<lparr>value = ?d, status = ''RESOLVED''\<rparr> s
            else s"
  have h1: "not_LOADING ?h rid"
    using assms(2) by (simp add: not_LOADING_after_RESOLVED)
  have h2: "filter (is_call_of f) (trace ?h) = filter (is_call_of f) (trace s)"
    by (simp add: cache_set_def)
  show ?thesis
  proof (cases "truthy ?d \<and> rMode = Some ''SSR''")
    case True
    then have "snd (seed_id e loaders rData rMode rid s) =
                 cache_set rid \<lparr>value = ?d, status = ''RESOLVED''\<rparr> s"
      by (simp add: seed_id_def Let_def)
    then show ?thesis using assms(2) by (simp add: not_LOADING_after_RESOLVED)
  next
    case False
    let ?c = "?h\<lparr>trace := trace ?h @ [Invoke_loader f (requestContext e)]\<rparr>"
    have c1: "not_LOADING ?c rid"
      using h1 not_LOADING_same_cache [of ?c ?h rid] by simp
    have c2: "filter (is_call_of f) (trace ?c) =
                filter (is_call_of f) (trace s) @ [Invoke_loader f (requestContext e)]"
      using h2 by simp
    show ?thesis
    proof (cases "apply_function e f (trace ?h) (requestContext e)")
      case (Inl err)
      have "seed_id e loaders rData rMode rid s = (Some err, ?c)"
        using Inl assms(1) by (simp add: seed_id_late [where rData = rData and rid = rid and rMode = rMode, OF False] call_function_def)
      then show ?thesis using c1 by simp
    next
      case (Inr v)
      have "seed_id e loaders rData rMode rid s =
              (None, cache_set rid \<lparr>value = v, status = ''LOADING''\<rparr> ?c)"
        using Inr assms(1) by (simp add: seed_id_late [where rData = rData and rid = rid and rMode = rMode, OF False] call_function_def)
      moreover have "filter (is_call_of f)
                       (trace (cache_set rid \<lparr>value = v, status = ''LOADING''\<rparr> ?c)) =
                     filter (is_call_of f) (trace ?c)"
        by (simp add: cache_set_def)
      ultimately show ?thesis using c2 by simp
    qed
  qed
qed

lemma bootstrap_calls_loader_once:
  assumes "init e dataloaderConfig options initial_state = (Fulfilled u, s2)"
    and "cache s2 rid = Some r" and "status r = ''LOADING''"
    and "get_loader dataloaderConfig rid = Some (Single (Fn f))"
    and "filter (declares dataloaderConfig f) (''_app'' # context_matchedIds e) = [rid]"
  shows "filter (is_call_of f) (trace (snd (repeat_getData e dataloaderConfig rid False n s2))) =
           [Invoke_loader f (requestContext e)]"
proof -
  let ?calls = "\<lambda>s. filter (is_call_of f) (trace s)"
  let ?rData = "context_routesData e" and ?rMode = "context_renderMode e"
  obtain before rest where ids: "''_app'' # context_matchedIds e = before @ rid # rest"
      and nb: "\<forall>j\<in>set before. \<not> declares dataloaderConfig f j"
      and nr: "filter (declares dataloaderConfig f) rest = []"
    using assms(5) unfolding filter_eq_Cons_iff by auto
  have dr: "declares dataloaderConfig f rid" using assms(4) by (simp add: declares_def)
  have b1: "rid \<notin> set before" using nb dr by auto
  have b2: "\<not> list_ex (declares dataloaderConfig f) before" using nb by (simp add: list_ex_iff)
  have r2: "\<not> list_ex (declares dataloaderConfig f) rest"
    using nr by (simp add: list_ex_iff filter_empty_conv)
  have r1: "rid \<notin> set rest" using nr dr by (auto simp: filter_empty_conv)
  \<comment> \<open>the plugins and the registration of the fetcher\<close>
  obtain o1 s1 where p: "run_plugins e options initial_state = (o1, s1)"
    by (cases "run_plugins e options initial_state")
  have o1: "\<exists>u1. o1 = Fulfilled u1"
    using assms(1) p by (cases o1) (simp_all add: init_def)
  then obtain u1 where pf: "run_plugins e options initial_state = (Fulfilled u1, s1)"
    using p by auto
  define s0 where "s0 = register_fetcher options s1"
  have "cache s1 = Map.empty \<and> filter is_invocation (trace s1) = []"
    using run_plugins_frame [of e options initial_state] p
    by (simp add: initial_state_def)
  then have f1: "cache s1 = Map.empty" "?calls s1 = []"
    using no_invocation_no_call [of "trace s1" f] by simp_all
  have s0: "not_LOADING s0 rid" "?calls s0 = []"
    using f1 by (simp_all add: s0_def register_fetcher_def setFetcher_def not_LOADING_def
        split: option.splits)
  \<comment> \<open>the ids before, the id, the ids after\<close>
  obtain rb sb where fb: "forEach_id e dataloaderConfig ?rData ?rMode before s0 = (rb, sb)"
    by (cases "forEach_id e dataloaderConfig ?rData ?rMode before s0")
  have sb: "?calls sb = []" "not_LOADING sb rid"
    using forEach_id_other [OF b1 b2, of e ?rData ?rMode s0] fb s0 by simp_all
  obtain ri si where fi: "seed_id e dataloaderConfig ?rData ?rMode rid sb = (ri, si)"
    by (cases "seed_id e dataloaderConfig ?rData ?rMode rid sb")
  obtain rr sr where fr: "forEach_id e dataloaderConfig ?rData ?rMode rest si = (rr, sr)"
    by (cases "forEach_id e dataloaderConfig ?rData ?rMode rest si")
  have sr: "?calls sr = ?calls si" "not_LOADING si rid \<longrightarrow> not_LOADING sr rid"
    using forEach_id_other [OF r1 r2, of e ?rData ?rMode si] fr by simp_all
  obtain rs ss where seed: "loadInitialDataInClient e dataloaderConfig s0 = (rs, ss)"
    by (cases "loadInitialDataInClient e dataloaderConfig s0")
  have "loadInitialDataInClient e dataloaderConfig s0 =
          (case rb of Some err \<Rightarrow> (Some err, sb)
           | None \<Rightarrow> (case ri of Some err \<Rightarrow> (Some err, si) | None \<Rightarrow> (rr, sr)))"
    using fb fi fr
    by (cases rb; cases ri; simp add: loadInitialDataInClient_def ids forEach_id_append)
  then have ss: "ss = (case rb of Some err \<Rightarrow> sb
                  | None \<Rightarrow> (case ri of Some err \<Rightarrow> si | None \<Rightarrow> sr))"
    using seed by (cases rb; cases ri; simp)
  have "init e dataloaderConfig options initial_state =
          (case rs of
             Some err \<Rightarrow>
               (Fulfilled JUndefined,
                (console_error err ss)\<lparr>ICE_DATA_LOADER := Some dataloaderConfig\<rparr>)
           | None \<Rightarrow> (Fulfilled JUndefined, ss\<lparr>ICE_DATA_LOADER := Some dataloaderConfig\<rparr>))"
    using seed unfolding init_after_plugins [OF pf] s0_def by (cases rs) simp_all
  then have s2: "s2 = (case rs of
             Some err \<Rightarrow> (console_error err ss)\<lparr>ICE_DATA_LOADER := Some dataloaderConfig\<rparr>
           | None \<Rightarrow> ss\<lparr>ICE_DATA_LOADER := Some dataloaderConfig\<rparr>)"
    using assms(1) by (cases rs) simp_all
  have fin: "cache s2 = cache ss" "?calls s2 = ?calls ss"
    unfolding s2 by (cases rs; simp add: console_error_def)+
  have loading: "\<not> not_LOADING ss rid"
    using assms(2) assms(3) fin(1) by (simp add: not_LOADING_def)
  have rbN: "rb = None"
    using loading ss sb(2) by (cases rb) simp_all
  have step: "not_LOADING si rid \<or>
              (ri = None \<and> ?calls si = ?calls sb @ [Invoke_loader f (requestContext e)])"
    using seed_id_function [where loaders = dataloaderConfig and rid = rid and f = f and s = sb
        and e = e and rData = ?rData and rMode = ?rMode, OF assms(4) sb(2)] fi by simp
  have "\<not> not_LOADING si rid"
  proof
    assume n: "not_LOADING si rid"
    then have "not_LOADING ss rid" using ss rbN sr(2) by (cases ri) simp_all
    then show False using loading by simp
  qed
  then have ok: "ri = None" "?calls si = [Invoke_loader f (requestContext e)]"
    using step sb(1) by simp_all
  have "?calls ss = [Invoke_loader f (requestContext e)]"
    using ss rbN ok sr(1) by simp
  then have total: "?calls s2 = [Invoke_loader f (requestContext e)]"
    using fin(2) by simp
  have "snd (repeat_getData e dataloaderConfig rid False n s2) = s2"
    using repeat_getData_LOADING [OF assms(2) assms(3), of e dataloaderConfig n] by simp
  then show ?thesis using total by simp
qed

lemma member_events_invocations:
  "filter is_invocation (member_events g ctx l) = member_events g ctx l"
  by (cases l; cases g) simp_all

lemma declaration_events_invocations:
  "filter is_invocation (declaration_events g ctx d) = declaration_events g ctx d"
proof (cases d)
  case (Single l)
  then show ?thesis by (simp add: member_events_invocations)
next
  case (Batch ls)
  have "filter is_invocation (concat (map (member_events g ctx) ls)) =
          concat (map (member_events g ctx) ls)"
    by (induction ls) (simp_all add: member_events_invocations)
  then show ?thesis using Batch by simp
qed

lemma call_member_events:
  assumes "call_member e l ctx s = (Inr v, s1)"
  shows "trace s1 = trace s @ member_events (dataLoaderFetcher s) ctx l"
  using assms
  by (cases l; cases "dataLoaderFetcher s")
     (auto simp: loadDataByCustomFetcher_def call_function_def)

lemma map_members_events:
  assumes "map_members e ls ctx s = (Inr vs, s1)"
  shows "trace s1 = trace s @ concat (map (member_events (dataLoaderFetcher s) ctx) ls)"
  using assms
proof (induction ls arbitrary: s vs)
  case Nil
  then show ?case by simp
next
  case (Cons l ls)
  obtain r sa where m: "call_member e l ctx s = (r, sa)" by (cases "call_member e l ctx s")
  obtain r2 sb where m2: "map_members e ls ctx sa = (r2, sb)"
    by (cases "map_members e ls ctx sa")
  obtain v where r: "r = Inr v"
    using Cons.prems m by (cases r) simp_all
  obtain ws where r2: "r2 = Inr ws" and sb: "sb = s1"
    using Cons.prems m m2 r by (cases r2) simp_all
  have f: "dataLoaderFetcher sa = dataLoaderFetcher s"
    using call_member_frame [of e l ctx s] m by simp
  have t1: "trace sa = trace s @ member_events (dataLoaderFetcher s) ctx l"
    using m r by (simp add: call_member_events)
  have "map_members e ls ctx sa = (Inr ws, s1)" using m2 r2 sb by simp
  then have "trace s1 = trace sa @ concat (map (member_events (dataLoaderFetcher sa) ctx) ls)"
    by (rule Cons.IH)
  then show ?case using t1 f by simp
qed

lemma callDataLoader_events:
  assumes "callDataLoader e d ctx s = (Inr v, s1)"
  shows "trace s1 = trace s @ declaration_events (dataLoaderFetcher s) ctx d"
proof (cases d)
  case (Single l)
  have "call_member e l ctx s = (Inr v, s1)"
    using assms Single by (cases l) simp_all
  then show ?thesis using Single by (simp add: call_member_events)
next
  case (Batch ls)
  obtain r sa where m: "map_members e ls ctx s = (r, sa)" by (cases "map_members e ls ctx s")
  obtain vs where "r = Inr vs" and "sa = s1"
    using assms Batch m by (cases r) simp_all
  then show ?thesis using Batch m by (simp add: map_members_events)
qed

lemma seed_id_LOADING_events:
  assumes "seed_id e loaders rData rMode rid s = (None, s1)"
    and "get_loader loaders rid = Some d"
    and "cache s1 rid = Some r" and "status r = ''LOADING''"
  shows "filter is_invocation (drop (length (trace s)) (trace s1)) =
           declaration_events (dataLoaderFetcher s) (requestContext e) d"
proof -
  let ?h = "if truthy (get_property rData rid)
            then cache_set (if rMode = Some ''SSG'' then rid @ ''_ssg'' else rid)
                   \<lparr>value = get_property rData rid, status = ''RESOLVED''\<rparr> s
            else s"
  have not_early: "\<not> (truthy (get_property rData rid) \<and> rMode = Some ''SSR'')"
  proof
    assume early: "truthy (get_property rData rid) \<and> rMode = Some ''SSR''"
    then have "s1 = cache_set rid \<lparr>value = get_property rData rid, status = ''RESOLVED''\<rparr> s"
      using assms(1) by (simp add: seed_id_def Let_def)
    then have "cache s1 rid = Some \<lparr>value = get_property rData rid, status = ''RESOLVED''\<rparr>"
      by (simp add: cache_set_def)
    then show False using assms(3) assms(4) by auto
  qed
  obtain c s2 where c: "callDataLoader e d (requestContext e) ?h = (c, s2)"
    by (cases "callDataLoader e d (requestContext e) ?h")
  have late: "seed_id e loaders rData rMode rid s =
                (case c of Inl err \<Rightarrow> (Some err, s2)
                 | Inr loader \<Rightarrow> (None, cache_set rid \<lparr>value = loader, status = ''LOADING''\<rparr> s2))"
    using assms(2) c
    by (simp add: seed_id_late [where rData = rData and rid = rid and rMode = rMode, OF not_early])
  obtain v where v: "c = Inr v" and s1: "s1 = cache_set rid \<lparr>value = v, status = ''LOADING''\<rparr> s2"
    using late assms(1) by (cases c) simp_all
  obtain pre where pre: "trace ?h = trace s @ pre" "filter is_invocation pre = []"
      and fh: "dataLoaderFetcher ?h = dataLoaderFetcher s"
    by (cases "truthy (get_property rData rid)") (simp_all add: cache_set_def)
  have "trace s2 = trace ?h @ declaration_events (dataLoaderFetcher ?h) (requestContext e) d"
    using c v by (simp add: callDataLoader_events)
  then have "trace s1 = trace s @ pre @
               declaration_events (dataLoaderFetcher s) (requestContext e) d @
               [Cache_set rid \<lparr>value = v, status = ''LOADING''\<rparr>]"
    using s1 pre(1) fh by (simp add: cache_set_def)
  then show ?thesis
    using pre(2) by (simp add: declaration_events_invocations)
qed

text \<open>
  C4, as the code has it. In every state that has a LOADING record under an id, any number
  of calls \<^verbatim>\<open>getData(id)\<close> leave the state as it was, so that they call nothing, and each has
  the fate of the stored value. A seeding of the id that has left the record has resolved
  the declaration of the id once: its calls are one call of a function, one call of the
  fetcher for a descriptor, one call for each member of a batch, in order; for a function
  the stored value is what the call returned. Over the whole page: when the state is the
  one that \<^verbatim>\<open>init\<close> leaves on a fresh page and the id is the only one of
  \<^verbatim>\<open>['_app'].concat(matchedIds)\<close> whose declaration names the function \<open>f\<close>, listed once, then
  after bootstrap and any number of calls \<^verbatim>\<open>getData(id)\<close> the trace holds one call of \<open>f\<close>.
\<close>

theorem seeded_LOADING_resolved_once:
  assumes "cache s2 rid = Some r" and "status r = ''LOADING''"
  shows "repeat_getData e dataloaderConfig rid False n s2 =
           (replicate n (await_stored e (value r)), s2) \<and>
         (seed_id e loaders rData rMode rid s = (None, s1) \<and>
          get_loader loaders rid = Some d \<and> cache s1 rid = Some r \<longrightarrow>
            filter is_invocation (drop (length (trace s)) (trace s1)) =
              declaration_events (dataLoaderFetcher s) (requestContext e) d) \<and>
         (seed_id e loaders rData rMode rid s = (None, s1) \<and>
          get_loader loaders rid = Some (Single (Fn f)) \<and> cache s1 rid = Some r \<longrightarrow>
            (\<exists>h. trace s1 = h @ [Invoke_loader f (requestContext e), Cache_set rid r] \<and>
                 apply_function e f h (requestContext e) = Inr (value r))) \<and>
         (init e dataloaderConfig options initial_state = (Fulfilled u, s2) \<and>
          get_loader dataloaderConfig rid = Some (Single (Fn f)) \<and>
          filter (declares dataloaderConfig f) (''_app'' # context_matchedIds e) = [rid] \<longrightarrow>
            filter (is_call_of f)
                (trace (snd (repeat_getData e dataloaderConfig rid False n s2))) =
              [Invoke_loader f (requestContext e)])"
proof -
  have shared: "repeat_getData e dataloaderConfig rid False n s2 =
           (replicate n (await_stored e (value r)), s2)"
    using assms by (rule repeat_getData_LOADING)
  have resolved: "seed_id e loaders rData rMode rid s = (None, s1) \<and>
          get_loader loaders rid = Some d \<and> cache s1 rid = Some r \<longrightarrow>
            filter is_invocation (drop (length (trace s)) (trace s1)) =
              declaration_events (dataLoaderFetcher s) (requestContext e) d"
    using seed_id_LOADING_events [of e loaders rData rMode rid s s1 d r] assms(2) by blast
  have stored: "seed_id e loaders rData rMode rid s = (None, s1) \<and>
          get_loader loaders rid = Some (Single (Fn f)) \<and> cache s1 rid = Some r \<longrightarrow>
            (\<exists>h. trace s1 = h @ [Invoke_loader f (requestContext e), Cache_set rid r] \<and>
                 apply_function e f h (requestContext e) = Inr (value r))"
  proof
    assume a: "seed_id e loaders rData rMode rid s = (None, s1) \<and>
          get_loader loaders rid = Some (Single (Fn f)) \<and> cache s1 rid = Some r"
    obtain pre where pre:
        "trace s1 = trace s @ pre @ [Invoke_loader f (requestContext e), Cache_set rid r]"
        "apply_function e f (trace s @ pre) (requestContext e) = Inr (value r)"
      using seed_id_function_LOADING [of e loaders rData rMode rid s s1 f r] a assms(2) by blast
    show "\<exists>h. trace s1 = h @ [Invoke_loader f (requestContext e), Cache_set rid r] \<and>
                apply_function e f h (requestContext e) = Inr (value r)"
      using pre by (intro exI [of _ "trace s @ pre"]) simp
  qed
  have total: "init e dataloaderConfig options initial_state = (Fulfilled u, s2) \<and>
          get_loader dataloaderConfig rid = Some (Single (Fn f)) \<and>
          filter (declares dataloaderConfig f) (''_app'' # context_matchedIds e) = [rid] \<longrightarrow>
            filter (is_call_of f)
                (trace (snd (repeat_getData e dataloaderConfig rid False n s2))) =
              [Invoke_loader f (requestContext e)]"
    using bootstrap_calls_loader_once [of e dataloaderConfig options u s2 rid r f n] assms
    by blast
  from shared resolved stored total show ?thesis by blast
qed

theorem seeded_LOADING_resolved_once_witness:
  "repeat_getData (example_host (Some scenario_context)) scenario_loaders ''home'' False
       (Suc (Suc 0))
       (snd (init (example_host (Some scenario_context)) scenario_loaders no_options
               initial_state)) =
     ([Fulfilled (JStr ''fetchHomeData''), Fulfilled (JStr ''fetchHomeData'')],
      snd (init (example_host (Some scenario_context)) scenario_loaders no_options
             initial_state)) \<and>
   filter (is_call_of ''fetchHomeData'')
       (trace (snd (repeat_getData (example_host (Some scenario_context)) scenario_loaders
                      ''home'' False (Suc (Suc 0))
                      (snd (init (example_host (Some scenario_context)) scenario_loaders
                              no_options initial_state))))) =
     [Invoke_loader ''fetchHomeData'' (requestContext (example_host (Some scenario_context)))] \<and>
   filter is_invocation
       (drop (length (trace initial_state))
          (trace (snd (seed_id (example_host (Some scenario_context)) scenario_loaders
                         [''_app'' \<mapsto> JObj [(''user'', JStr ''x'')]] (Some ''SSR'') ''home''
                         initial_state)))) =
     [Invoke_loader ''fetchHomeData'' (requestContext (example_host (Some scenario_context)))]"
proof -
  let ?H = "example_host (Some scenario_context)"
  let ?rData = "[''_app'' \<mapsto> JObj [(''user'', JStr ''x'')]]"
  let ?a = "\<lparr>value = JObj [(''user'', JStr ''x'')], status = ''RESOLVED''\<rparr>"
  let ?r = "\<lparr>value = JPromise (Fulfilled (JStr ''fetchHomeData'')), status = ''LOADING''\<rparr>"
  let ?s1 = "\<lparr>dataLoaderFetcher = None, cache = [''home'' \<mapsto> ?r], ICE_DATA_LOADER = None,
       trace = [Invoke_loader ''fetchHomeData'' (JObj [(''pathname'', JStr ''/'')]),
                Cache_set ''home'' ?r]\<rparr>"
  let ?s2 = "\<lparr>dataLoaderFetcher = None, cache = [''_app'' \<mapsto> ?a, ''home'' \<mapsto> ?r],
       ICE_DATA_LOADER = Some scenario_loaders,
       trace = [Cache_set ''_app'' ?a,
                Invoke_loader ''fetchHomeData'' (JObj [(''pathname'', JStr ''/'')]),
                Cache_set ''home'' ?r]\<rparr>"
  have st: "seed_id ?H scenario_loaders ?rData (Some ''SSR'') ''home'' initial_state = (None, ?s1)"
    by (simp add: example_defs step_defs)
  have boot: "init ?H scenario_loaders no_options initial_state = (Fulfilled JUndefined, ?s2)"
    by (simp add: init_def run_plugins_def loadInitialDataInClient_def example_defs step_defs)
  have l: "get_loader scenario_loaders ''home'' = Some (Single (Fn ''fetchHomeData''))"
    by (simp add: scenario_loaders_def read_defs)
  have only: "filter (declares scenario_loaders ''fetchHomeData'') (''_app'' # context_matchedIds ?H) =
                [''home'']"
    by (simp add: declares_def example_defs read_defs)
  have c1: "cache ?s1 ''home'' = Some ?r" by simp
  have c2: "cache ?s2 ''home'' = Some ?r" by simp
  have u: "status ?r = ''LOADING''" by simp
  note step = seeded_LOADING_resolved_once [where e = ?H and loaders = scenario_loaders
      and rData = ?rData and rMode = "Some ''SSR''" and rid = "''home''" and s = initial_state
      and ?s1.0 = ?s1 and d = "Single (Fn ''fetchHomeData'')" and r = ?r and ?s2.0 = ?s1, OF c1 u]
  note page = seeded_LOADING_resolved_once [where e = ?H and rid = "''home''" and r = ?r
      and ?s2.0 = ?s2 and f = "''fetchHomeData''" and dataloaderConfig = scenario_loaders
      and options = no_options and u = JUndefined and n = "Suc (Suc 0)", OF c2 u]
  have "filter is_invocation (drop (length (trace initial_state)) (trace ?s1)) =
          declaration_events (dataLoaderFetcher initial_state) (requestContext ?H)
            (Single (Fn ''fetchHomeData''))"
    using step st l c1 by blast
  then have once: "filter is_invocation (drop (length (trace initial_state)) (trace ?s1)) =
                [Invoke_loader ''fetchHomeData'' (requestContext ?H)]"
    by simp
  have fates: "replicate (Suc (Suc 0)) (await_stored ?H (value ?r)) =
                 [Fulfilled (JStr ''fetchHomeData''), Fulfilled (JStr ''fetchHomeData'')]"
    by (simp add: await_stored_def)
  have shared: "repeat_getData ?H scenario_loaders ''home'' False (Suc (Suc 0)) ?s2 =
                  ([Fulfilled (JStr ''fetchHomeData''), Fulfilled (JStr ''fetchHomeData'')], ?s2)"
    using page unfolding fates by blast
  have total: "filter (is_call_of ''fetchHomeData'')
                 (trace (snd (repeat_getData ?H scenario_loaders ''home'' False (Suc (Suc 0)) ?s2))) =
               [Invoke_loader ''fetchHomeData'' (requestContext ?H)]"
    using page boot l only by blast
  show ?thesis
    unfolding st boot snd_conv using shared total once by blast
qed

text \<open>
  C4 as stated has the loader function called once in total for every id that seeding has
  left with a LOADING record. On a page whose context lists \<^verbatim>\<open>home\<close> twice the id is seeded
  twice: after bootstrap the cache has the LOADING record under \<^verbatim>\<open>home\<close> and the trace has
  two calls of \<^verbatim>\<open>fetchHomeData\<close>.
\<close>

theorem id_listed_twice_called_twice:
  "cache (snd (init (example_host (Some twice_context)) scenario_loaders no_options initial_state))
       ''home'' =
     Some \<lparr>value = JPromise (Fulfilled (JStr ''fetchHomeData'')), status = ''LOADING''\<rparr> \<and>
   filter (is_call_of ''fetchHomeData'')
       (trace (snd (init (example_host (Some twice_context)) scenario_loaders no_options
                      initial_state))) =
     [Invoke_loader ''fetchHomeData'' (JObj [(''pathname'', JStr ''/'')]),
      Invoke_loader ''fetchHomeData'' (JObj [(''pathname'', JStr ''/'')])]"
  by (simp add: init_def run_plugins_def loadInitialDataInClient_def example_defs step_defs)

end
